theory Spec2Isabelle
  imports Complex_Main
begin

section \<open>Python values\<close>

text \<open>
  A Python \<^verbatim>\<open>str\<close> is a sequence of Unicode code points, so a string is a list
  of code points here (\<open>8211\<close> is the en-dash). \<open>u\<close> turns an ASCII literal into
  such a string.
\<close>

type_synonym pstr = "nat list"

definition u :: "string \<Rightarrow> pstr" where
  "u s = map of_char s"

text \<open>The exceptions, by the name of their class. \<open>RequestError\<close> stands for every
  exception of \<^verbatim>\<open>requests\<close> (no connection, or the \<^verbatim>\<open>HTTPError\<close> of
  \<^verbatim>\<open>raise_for_status\<close>); \<open>ShapeError\<close> and \<open>DuplicateError\<close> are the exceptions of
  polars for row data that does not fit a frame and for a column name given twice.\<close>

datatype error =
  RequestError | AttributeError | TypeError | ValueError | ShapeError | DuplicateError

text \<open>The code points \<^verbatim>\<open>str.isspace\<close> accepts; \<^verbatim>\<open>str.strip()\<close> removes them from
  both ends.\<close>

definition isspace :: "nat \<Rightarrow> bool" where
  "isspace c \<longleftrightarrow>
     (9 \<le> c \<and> c \<le> 13) \<or> (28 \<le> c \<and> c \<le> 32) \<or> c = 133 \<or> c = 160 \<or> c = 5760 \<or>
     (8192 \<le> c \<and> c \<le> 8202) \<or> c = 8232 \<or> c = 8233 \<or> c = 8239 \<or> c = 8287 \<or> c = 12288"

definition strip :: "pstr \<Rightarrow> pstr" where
  "strip s = rev (dropWhile isspace (rev (dropWhile isspace s)))"

section \<open>The parsed document\<close>

text \<open>
  What \<^verbatim>\<open>BeautifulSoup(response.text, 'html.parser')\<close> returns: a tree of tags and
  text nodes. A tag has its name, the values of its \<^verbatim>\<open>class\<close> attribute (bs4 splits
  the attribute at white space; no attribute is the empty list) and its children.
  The soup itself is the root tag of the tree.
\<close>

datatype node = Text pstr | Tag pstr "pstr list" "node list"

text \<open>The descendants of a node in document order, as \<^verbatim>\<open>find\<close> and \<^verbatim>\<open>find_all\<close>
  walk them (the node itself is not one of them).\<close>

fun descendants :: "node \<Rightarrow> node list" where
  "descendants (Text s) = []"
| "descendants (Tag n cs ks) = concat (map (\<lambda>k. k # descendants k) ks)"

text \<open>\<^verbatim>\<open>tag.text\<close>: the text nodes below the tag, concatenated.\<close>

fun get_text :: "node \<Rightarrow> pstr" where
  "get_text (Text s) = s"
| "get_text (Tag n cs ks) = concat (map get_text ks)"

fun is_tag :: "pstr \<Rightarrow> node \<Rightarrow> bool" where
  "is_tag name (Text s) = False"
| "is_tag name (Tag n cs ks) = (n = name)"

text \<open>A search for a class string that holds a blank: bs4 compares the string with each
  single value of the attribute (none can hold a blank) and then with the values joined
  by one blank, so the tag matches when its values, in order, are the words of the
  string.\<close>

fun has_classes :: "pstr list \<Rightarrow> node \<Rightarrow> bool" where
  "has_classes ws (Text s) = False"
| "has_classes ws (Tag n cs ks) = (cs = ws)"

definition find_all :: "pstr \<Rightarrow> node \<Rightarrow> node list" where
  "find_all name t = filter (is_tag name) (descendants t)"

text \<open>\<^verbatim>\<open>soup.find(name, class_=...)\<close>: the first match in document order, or
  \<^verbatim>\<open>None\<close>.\<close>

definition find_class :: "pstr \<Rightarrow> pstr list \<Rightarrow> node \<Rightarrow> node option" where
  "find_class name ws t =
     (case filter (\<lambda>d. is_tag name d \<and> has_classes ws d) (descendants t) of
        [] \<Rightarrow> None
      | d # _ \<Rightarrow> Some d)"

section \<open>The network\<close>

text \<open>
  The world the scraper runs in: \<open>served w k url\<close> is what the \<open>k\<close>-th request of the
  run gets when it asks for \<open>url\<close> (the parsed page, or the exception of
  \<^verbatim>\<open>requests.get\<close> or \<^verbatim>\<open>raise_for_status\<close>), and \<open>requests w\<close> lists the URLs
  asked for so far, oldest first.
\<close>

record world =
  served :: "nat \<Rightarrow> pstr \<Rightarrow> error + node"
  requests :: "pstr list"

section \<open>BeautifulSoupHelpers\<close>

definition get_table_headers :: "node \<Rightarrow> pstr list" where
  "get_table_headers table = map (\<lambda>header. strip (get_text header)) (find_all (u ''th'') table)"

definition get_html_soup :: "pstr \<Rightarrow> world \<Rightarrow> (error + node) \<times> world" where
  "get_html_soup url w =
     (served w (length (requests w)) url, w\<lparr>requests := requests w @ [url]\<rparr>)"

section \<open>CapitolTraderScraper.scrape_table\<close>

definition trades_table :: "node \<Rightarrow> node option" where
  "trades_table soup = find_class (u ''table'') [u ''q-table'', u ''trades-table''] soup"

text \<open>The cells of one \<^verbatim>\<open>tr\<close> and the value sequence the loop appends for it:
  \<^verbatim>\<open>row[:-1]\<close> of the stripped cell texts.\<close>

definition cells_of :: "node \<Rightarrow> node list" where
  "cells_of row = find_all (u ''td'') row"

definition row_values :: "node \<Rightarrow> pstr list" where
  "row_values row = butlast (map (\<lambda>cell. strip (get_text cell)) (cells_of row))"

definition table_rows :: "node \<Rightarrow> pstr list list" where
  "table_rows table =
     map row_values (filter (\<lambda>row. length (cells_of row) > 0) (find_all (u ''tr'') table))"

text \<open>
  \<^verbatim>\<open>scrape_table(self, soup, headers=None)\<close>. With no headers given the header row is
  read from \<open>table\<close> before \<^verbatim>\<open>if table:\<close> is reached, and
  \<^verbatim>\<open>get_table_headers(None)\<close> raises \<^verbatim>\<open>AttributeError\<close> at \<^verbatim>\<open>table.find_all\<close>.
  The method reads its arguments only: the world is handed back as it came.
\<close>

definition scrape_table ::
  "node \<Rightarrow> pstr list option \<Rightarrow> world \<Rightarrow> (error + pstr list list \<times> pstr list) \<times> world" where
  "scrape_table soup headers w =
     (let table = trades_table soup in
      case (case headers of
              None \<Rightarrow> (case table of
                         None \<Rightarrow> Inl AttributeError
                       | Some t \<Rightarrow> Inr (butlast (get_table_headers t)))
            | Some hs \<Rightarrow> Inr hs) of
        Inl e \<Rightarrow> (Inl e, w)
      | Inr hs \<Rightarrow>
          (Inr (case table of None \<Rightarrow> [] | Some t \<Rightarrow> table_rows t, hs), w))"

section \<open>CapitolTraderScraper.number_of_pages\<close>

text \<open>
  How \<^verbatim>\<open>int(s)\<close> and \<^verbatim>\<open>float(s)\<close> read a string (CPython 3.11). Code points from
  127 on are replaced first: a space of \<^verbatim>\<open>str.isspace\<close> by a blank, a decimal digit of
  any script by its ASCII digit, anything else by a question mark, which no number
  holds. The decimal digits come in runs of ten code points for the values 0 to 9;
  \<open>decimal_starts\<close> lists where the runs of Unicode 14.0 start. Then the ASCII white
  space at both ends is dropped, which the code points 28 to 31 are not part of.
\<close>

definition ascii_space :: "nat \<Rightarrow> bool" where
  "ascii_space c \<longleftrightarrow> (9 \<le> c \<and> c \<le> 13) \<or> c = 32"

definition decimal_starts :: "nat list" where
  "decimal_starts =
     [48, 1632, 1776, 1984, 2406, 2534, 2662, 2790, 2918, 3046, 3174, 3302, 3430, 3558,
      3664, 3792, 3872, 4160, 4240, 6112, 6160, 6470, 6608, 6784, 6800, 6992, 7088,
      7232, 7248, 42528, 43216, 43264, 43472, 43504, 43600, 44016, 65296, 66720, 68912,
      69734, 69872, 69942, 70096, 70384, 70736, 70864, 71248, 71360, 71472, 71904,
      72016, 72784, 73040, 73120, 92768, 92864, 93008, 120782, 120792, 120802, 120812,
      120822, 123200, 123632, 125264, 130032]"

definition unicode_decimal :: "nat \<Rightarrow> nat option" where
  "unicode_decimal c =
     (case filter (\<lambda>s. s \<le> c \<and> c < s + 10) decimal_starts of
        [] \<Rightarrow> None
      | s # _ \<Rightarrow> Some (c - s))"

definition to_ascii_char :: "nat \<Rightarrow> nat" where
  "to_ascii_char c =
     (if c < 127 then c
      else if isspace c then 32
      else (case unicode_decimal c of None \<Rightarrow> 63 | Some d \<Rightarrow> 48 + d))"

definition to_ascii :: "pstr \<Rightarrow> pstr" where
  "to_ascii s = map to_ascii_char s"

definition strip_ascii :: "pstr \<Rightarrow> pstr" where
  "strip_ascii s = rev (dropWhile ascii_space (rev (dropWhile ascii_space s)))"

definition is_digit :: "nat \<Rightarrow> bool" where
  "is_digit c \<longleftrightarrow> 48 \<le> c \<and> c \<le> 57"

definition digits_value :: "pstr \<Rightarrow> nat" where
  "digits_value ds = foldl (\<lambda>a c. 10 * a + (c - 48)) 0 ds"

text \<open>An underscore may stand between two digits and nowhere else: \<open>drop_underscores\<close>
  removes such underscores and is \<open>None\<close> for a string with any other (\<open>prev\<close> is the
  code point before the string, 0 at its start; 95 is the underscore).\<close>

fun drop_underscores :: "nat \<Rightarrow> pstr \<Rightarrow> pstr option" where
  "drop_underscores prev [] = (if prev = 95 then None else Some [])"
| "drop_underscores prev (c # cs) =
     (if c = 95 then (if is_digit prev then drop_underscores c cs else None)
      else if prev = 95 \<and> \<not> is_digit c then None
      else map_option ((#) c) (drop_underscores c cs))"

text \<open>
  \<^verbatim>\<open>int(s)\<close> on a string: an optional sign and then decimal digits, at most 4300 of
  them; anything else raises \<^verbatim>\<open>ValueError\<close>. \<^verbatim>\<open>int(None)\<close> raises
  \<^verbatim>\<open>TypeError\<close>.
\<close>

definition int_of_str :: "pstr \<Rightarrow> error + int" where
  "int_of_str s =
     (let t = strip_ascii (to_ascii s);
          neg = (t \<noteq> [] \<and> hd t = 45);
          body = (if t \<noteq> [] \<and> (hd t = 45 \<or> hd t = 43) then tl t else t)
      in case drop_underscores 0 body of
           None \<Rightarrow> Inl ValueError
         | Some ds \<Rightarrow>
             if ds \<noteq> [] \<and> list_all is_digit ds \<and> length ds \<le> 4300
             then Inr (if neg then - int (digits_value ds) else int (digits_value ds))
             else Inl ValueError)"

definition py_int :: "pstr option \<Rightarrow> error + int" where
  "py_int x = (case x of None \<Rightarrow> Inl TypeError | Some s \<Rightarrow> int_of_str s)"

definition url :: pstr where
  "url = u ''https://www.capitoltrades.com/trades''"

definition page_info_of :: "node \<Rightarrow> node option" where
  "page_info_of soup = find_class (u ''p'') [u ''hidden'', u ''leading-7'', u ''sm:block''] soup"

text \<open>The value of \<^verbatim>\<open>total_pages\<close> when line 97 is reached: \<^verbatim>\<open>None\<close> unless the
  paragraph is there and holds at least two \<^verbatim>\<open>b\<close> tags. (A bs4 tag is always true,
  so \<^verbatim>\<open>if page_info:\<close> asks only whether the paragraph was found.)\<close>

definition total_pages_text :: "node \<Rightarrow> pstr option" where
  "total_pages_text soup =
     (case page_info_of soup of
        None \<Rightarrow> None
      | Some page_info \<Rightarrow>
          (let bold_tags = find_all (u ''b'') page_info
           in if length bold_tags > 1 then Some (strip (get_text (bold_tags ! 1))) else None))"

definition number_of_pages :: "world \<Rightarrow> (error + int) \<times> world" where
  "number_of_pages w =
     (case get_html_soup url w of
        (Inl e, w1) \<Rightarrow> (Inl e, w1)
      | (Inr soup, w1) \<Rightarrow> (py_int (total_pages_text soup), w1))"

section \<open>CapitolTraderScraper.scrape_trades\<close>

text \<open>\<^verbatim>\<open>str(page)\<close> of an integer, and the URL of a page.\<close>

fun str_nat :: "nat \<Rightarrow> pstr" where
  "str_nat n = (if n < 10 then [48 + n] else str_nat (n div 10) @ [48 + n mod 10])"

definition str_int :: "int \<Rightarrow> pstr" where
  "str_int i = (if i < 0 then 45 # str_nat (nat (- i)) else str_nat (nat i))"

definition page_url :: "int \<Rightarrow> pstr" where
  "page_url page = u ''https://www.capitoltrades.com/trades?page='' @ str_int page"

text \<open>
  The loop over \<^verbatim>\<open>range(1, total_pages + 1)\<close>, with \<^verbatim>\<open>all_rows\<close> and \<^verbatim>\<open>headers\<close>
  as they stand before the page. An exception of the fetch or of \<^verbatim>\<open>scrape_table\<close>
  ends the run. The test of the first row's length against the headers guards a
  \<^verbatim>\<open>pass\<close>: both of its branches go on to \<^verbatim>\<open>all_rows.extend(page_rows)\<close>.
\<close>

fun scrape_pages ::
  "int list \<Rightarrow> pstr list list \<Rightarrow> pstr list option \<Rightarrow> world \<Rightarrow>
   (error + pstr list list \<times> pstr list option) \<times> world" where
  "scrape_pages [] all_rows headers w = (Inr (all_rows, headers), w)"
| "scrape_pages (page # pages) all_rows headers w =
     (case get_html_soup (page_url page) w of
        (Inl e, w1) \<Rightarrow> (Inl e, w1)
      | (Inr soup, w1) \<Rightarrow>
          (case scrape_table soup headers w1 of
             (Inl e, w2) \<Rightarrow> (Inl e, w2)
           | (Inr (page_rows, hs), w2) \<Rightarrow>
               scrape_pages pages
                 (if page_rows \<noteq> []
                  then (if length (hd page_rows) \<noteq> length hs
                        then all_rows @ page_rows
                        else all_rows @ page_rows)
                  else all_rows)
                 (Some hs) w2))"

text \<open>
  \<^verbatim>\<open>scrape_trades\<close>. The last line hands the rows and the headers to the constructor of
  polars' \<^verbatim>\<open>DataFrame\<close> (with \<^verbatim>\<open>orient='row'\<close>); the constructor is a parameter
  here, which may raise or return a frame.
\<close>

definition scrape_trades ::
  "(pstr list list \<Rightarrow> pstr list option \<Rightarrow> error + 'df) \<Rightarrow> world \<Rightarrow> (error + 'df) \<times> world" where
  "scrape_trades DataFrame w =
     (case number_of_pages w of
        (Inl e, w1) \<Rightarrow> (Inl e, w1)
      | (Inr total_pages, w1) \<Rightarrow>
          (case scrape_pages [1..total_pages] [] None w1 of
             (Inl e, w2) \<Rightarrow> (Inl e, w2)
           | (Inr (all_rows, headers), w2) \<Rightarrow> (DataFrame all_rows headers, w2)))"

text \<open>The rows \<^verbatim>\<open>scrape_table\<close> returns for a page when it does not raise.\<close>

definition page_rows_of :: "node \<Rightarrow> pstr list list" where
  "page_rows_of soup = (case trades_table soup of None \<Rightarrow> [] | Some t \<Rightarrow> table_rows t)"

section \<open>DataFrameCleaner.parse_size\<close>

text \<open>\<^verbatim>\<open>s.split(sep)\<close> for a separator of one code point: the pieces between its
  occurrences, one more than there are occurrences.\<close>

fun split_on :: "nat \<Rightarrow> pstr \<Rightarrow> pstr list" where
  "split_on sep [] = [[]]"
| "split_on sep (c # cs) =
     (if c = sep then [] # split_on sep cs
      else (case split_on sep cs of [] \<Rightarrow> [[c]] | p # ps \<Rightarrow> (c # p) # ps))"

text \<open>
  A Python \<^verbatim>\<open>float\<close> is an IEEE 754 binary64 number. \<open>Finite neg m k\<close> is the number
  \<open>m * 2 ^ k\<close>, negative when \<open>neg\<close> holds, where \<open>2 ^ 52 \<le> m < 2 ^ 53\<close> and
  \<open>- 1074 \<le> k \<le> 971\<close> (normal), or \<open>0 < m < 2 ^ 52\<close> and \<open>k = - 1074\<close> (subnormal), or
  \<open>m = 0\<close> and \<open>k = 0\<close> (zero). Besides these there are the two infinities and
  not-a-number.
\<close>

datatype pyfloat = Finite bool nat int | Infinite bool | NaN

text \<open>\<open>bit_length n\<close> is the number of binary digits of \<open>n\<close>, and \<open>ilog2_ratio p q\<close> the
  integer \<open>e\<close> with \<open>2 ^ e \<le> p / q < 2 ^ (e + 1)\<close>, for positive \<open>p\<close> and \<open>q\<close>.\<close>

fun bit_length :: "nat \<Rightarrow> nat" where
  "bit_length n = (if n = 0 then 0 else Suc (bit_length (n div 2)))"

definition ilog2_ratio :: "nat \<Rightarrow> nat \<Rightarrow> int" where
  "ilog2_ratio p q =
     (let d = int (bit_length p) - int (bit_length q)
      in if (if 0 \<le> d then q * 2 ^ nat d \<le> p else q \<le> p * 2 ^ nat (- d)) then d else d - 1)"

text \<open>
  The binary64 number nearest to the fraction \<open>p / q\<close> (\<open>0 < q\<close>), a tie going to the even
  mantissa, as IEEE 754 rounds by default: \<open>k\<close> is the exponent that puts the quotient
  \<open>p / (q * 2 ^ k)\<close> in the range of a 53-bit mantissa (but not below the exponent of the
  subnormal numbers), \<open>m0\<close> the quotient rounded down and \<open>r\<close> what is left. A mantissa
  that rounds up to \<open>2 ^ 53\<close> is renormalised, and a result beyond the largest finite
  number is an infinity.
\<close>

definition round_ratio :: "bool \<Rightarrow> nat \<Rightarrow> nat \<Rightarrow> pyfloat" where
  "round_ratio neg p q =
     (if p = 0 then Finite neg 0 0
      else
        (let k = max (ilog2_ratio p q - 52) (- 1074);
             n = (if 0 \<le> k then p else p * 2 ^ nat (- k));
             d = (if 0 \<le> k then q * 2 ^ nat k else q);
             m0 = n div d;
             r = n mod d;
             m = (if d < 2 * r \<or> (2 * r = d \<and> odd m0) then m0 + 1 else m0);
             m' = (if m = 2 ^ 53 then 2 ^ 52 else m);
             k' = (if m = 2 ^ 53 then k + 1 else k)
         in if m' = 0 then Finite neg 0 0
            else if 971 < k' then Infinite neg
            else Finite neg m' k'))"

text \<open>\<^verbatim>\<open>1_000\<close> and \<^verbatim>\<open>1_000_000\<close> are integers: \<^verbatim>\<open>x * 1_000\<close> converts the integer to a
  float and multiplies two floats, rounding the exact product once.\<close>

definition float_of_nat :: "nat \<Rightarrow> pyfloat" where
  "float_of_nat n = round_ratio False n 1"

fun fmul :: "pyfloat \<Rightarrow> pyfloat \<Rightarrow> pyfloat" where
  "fmul (Finite s1 m1 k1) (Finite s2 m2 k2) =
     (if 0 \<le> k1 + k2 then round_ratio (s1 \<noteq> s2) (m1 * m2 * 2 ^ nat (k1 + k2)) 1
      else round_ratio (s1 \<noteq> s2) (m1 * m2) (2 ^ nat (- (k1 + k2))))"
| "fmul (Finite s1 m1 k1) (Infinite s2) = (if m1 = 0 then NaN else Infinite (s1 \<noteq> s2))"
| "fmul (Infinite s1) (Finite s2 m2 k2) = (if m2 = 0 then NaN else Infinite (s1 \<noteq> s2))"
| "fmul (Infinite s1) (Infinite s2) = Infinite (s1 \<noteq> s2)"
| "fmul NaN y = NaN"
| "fmul x NaN = NaN"

text \<open>The rational number a finite float denotes.\<close>

definition fvalue :: "pyfloat \<Rightarrow> rat option" where
  "fvalue x =
     (case x of
        Finite neg m k \<Rightarrow> Some ((if neg then - 1 else 1) * of_nat m * 2 powi k)
      | _ \<Rightarrow> None)"

text \<open>
  \<^verbatim>\<open>float(s)\<close> on a string, after the replacements and the stripping described for
  \<^verbatim>\<open>int\<close>: an optional sign, then \<^verbatim>\<open>inf\<close>, \<^verbatim>\<open>infinity\<close> or \<^verbatim>\<open>nan\<close> in any letter
  case, or a decimal numeral: digits with an optional point (a digit on at least one
  side of it) and an optional exponent \<^verbatim>\<open>e\<close> or \<^verbatim>\<open>E\<close> with its sign and digits. The
  numeral is rounded once, to the nearest float. Anything else raises
  \<^verbatim>\<open>ValueError\<close>.
\<close>

definition lower_ascii :: "nat \<Rightarrow> nat" where
  "lower_ascii c = (if 65 \<le> c \<and> c \<le> 90 then c + 32 else c)"

definition parse_exponent :: "pstr \<Rightarrow> int option" where
  "parse_exponent r =
     (if r = [] then Some 0
      else if hd r = 101 \<or> hd r = 69 then
        (let r' = tl r;
             neg = (r' \<noteq> [] \<and> hd r' = 45);
             ds = (if r' \<noteq> [] \<and> (hd r' = 45 \<or> hd r' = 43) then tl r' else r')
         in if ds \<noteq> [] \<and> list_all is_digit ds
            then Some (if neg then - int (digits_value ds) else int (digits_value ds))
            else None)
      else None)"

definition parse_decimal :: "pstr \<Rightarrow> (nat \<times> int) option" where
  "parse_decimal t =
     (let ip = takeWhile is_digit t;
          r1 = dropWhile is_digit t;
          point = (r1 \<noteq> [] \<and> hd r1 = 46);
          fp = (if point then takeWhile is_digit (tl r1) else []);
          r2 = (if point then dropWhile is_digit (tl r1) else r1)
      in if ip = [] \<and> fp = [] then None
         else (case parse_exponent r2 of
                 None \<Rightarrow> None
               | Some ex \<Rightarrow> Some (digits_value (ip @ fp), ex - int (length fp))))"

definition float_of_str :: "pstr \<Rightarrow> error + pyfloat" where
  "float_of_str s =
     (case drop_underscores 0 (strip_ascii (to_ascii s)) of
        None \<Rightarrow> Inl ValueError
      | Some b \<Rightarrow>
          (let neg = (b \<noteq> [] \<and> hd b = 45);
               body = (if b \<noteq> [] \<and> (hd b = 45 \<or> hd b = 43) then tl b else b);
               low = map lower_ascii body
           in if low = u ''inf'' \<or> low = u ''infinity'' then Inr (Infinite neg)
              else if low = u ''nan'' then Inr NaN
              else (case parse_decimal body of
                      None \<Rightarrow> Inl ValueError
                    | Some (m, e10) \<Rightarrow>
                        Inr (if 0 \<le> e10 then round_ratio neg (m * 10 ^ nat e10) 1
                             else round_ratio neg m (10 ^ nat (- e10))))))"

text \<open>The inner function \<^verbatim>\<open>to_number\<close>: \<^verbatim>\<open>'K' in s\<close> is code point 75, \<^verbatim>\<open>'M'\<close> is 77, and
  \<^verbatim>\<open>s.replace('K', '')\<close> removes every occurrence.\<close>

definition to_number :: "pstr \<Rightarrow> error + pyfloat" where
  "to_number s =
     (if 75 \<in> set s then
        (case float_of_str (filter (\<lambda>c. c \<noteq> 75) s) of
           Inl e \<Rightarrow> Inl e | Inr x \<Rightarrow> Inr (fmul x (float_of_nat 1000)))
      else if 77 \<in> set s then
        (case float_of_str (filter (\<lambda>c. c \<noteq> 77) s) of
           Inl e \<Rightarrow> Inl e | Inr x \<Rightarrow> Inr (fmul x (float_of_nat 1000000)))
      else float_of_str s)"

text \<open>
  \<^verbatim>\<open>parse_size\<close>. The string is split at the en-dash (code point 8211), and the
  assignment of the pieces to \<^verbatim>\<open>min_size, max_size\<close> raises \<^verbatim>\<open>ValueError\<close> unless there
  are exactly two.
\<close>

definition parse_size :: "pstr \<Rightarrow> bool \<Rightarrow> error + pyfloat" where
  "parse_size size_str minimum_val =
     (case split_on 8211 size_str of
        [min_size, max_size] \<Rightarrow> (if minimum_val then to_number min_size else to_number max_size)
      | _ \<Rightarrow> Inl ValueError)"

section \<open>The DataFrame of polars\<close>

text \<open>
  The last line of \<^verbatim>\<open>scrape_trades\<close> builds a polars \<^verbatim>\<open>DataFrame\<close> from the collected
  rows. A frame is a table of named columns, all of one height; it is kept here by its
  column names and its rows. Every value the scraper hands over is a string.
\<close>

record dataframe =
  columns :: "pstr list"
  data :: "pstr list list"

text \<open>
  Rows fit a header sequence when there is at least one header, no header is empty or
  comes twice, and every row has one value for each header. Every version of the
  constructor builds the frame of such rows under such headers, and the frame without
  columns from no rows and no schema. That much is asked of a constructor where a
  theorem needs one.
\<close>

definition fits :: "pstr list list \<Rightarrow> pstr list \<Rightarrow> bool" where
  "fits all_rows headers \<longleftrightarrow>
     headers \<noteq> [] \<and> [] \<notin> set headers \<and> distinct headers \<and>
     list_all (\<lambda>row. length row = length headers) all_rows"

definition builds_frames ::
  "(pstr list list \<Rightarrow> pstr list option \<Rightarrow> error + dataframe) \<Rightarrow> bool" where
  "builds_frames DataFrame \<longleftrightarrow>
     DataFrame [] None = Inr \<lparr>columns = [], data = []\<rparr> \<and>
     (\<forall>all_rows headers.
        fits all_rows headers \<longrightarrow>
        DataFrame all_rows (Some headers) = Inr \<lparr>columns = headers, data = all_rows\<rparr>)"

text \<open>
  \<^verbatim>\<open>pl.DataFrame(all_rows, schema=headers, orient='row')\<close>, modelled from the behaviour
  of the library. With no rows the frame has the columns of the schema and no row. Otherwise the first row decides how many columns there are, and the values of
  each row go to the columns from the left as far as both reach: a value beyond the
  last column is dropped, and a short row leaves the later columns without a value.
  Columns that end up with different heights raise \<^verbatim>\<open>ShapeError\<close>, and so does a
  number of names other than the number of columns. Where no name is given polars
  names the columns \<^verbatim>\<open>column_0\<close>, \<^verbatim>\<open>column_1\<close> and so on, an empty name likewise; a name
  given twice raises \<^verbatim>\<open>DuplicateError\<close>. (There are releases of polars that raise for
  every row that does not fit the schema instead; for rows that fit all agree.)
\<close>

definition auto_name :: "nat \<Rightarrow> pstr" where
  "auto_name i = u ''column_'' @ str_nat i"

definition column_names :: "pstr list option \<Rightarrow> nat \<Rightarrow> pstr list" where
  "column_names schema width =
     (case schema of
        None \<Rightarrow> map auto_name [0..<width]
      | Some headers \<Rightarrow>
          if headers = [] then map auto_name [0..<width]
          else map (\<lambda>(i, h). if h = [] then auto_name i else h) (zip [0..<length headers] headers))"

definition filled_columns :: "pstr list list \<Rightarrow> pstr list list" where
  "filled_columns all_rows =
     map (\<lambda>j. map (\<lambda>row. row ! j) (filter (\<lambda>row. j < length row) all_rows))
       [0..<length (hd all_rows)]"

definition pl_DataFrame :: "pstr list list \<Rightarrow> pstr list option \<Rightarrow> error + dataframe" where
  "pl_DataFrame all_rows schema =
     (if all_rows = [] then
        (let names = column_names schema 0
         in if distinct names then Inr \<lparr>columns = names, data = []\<rparr> else Inl DuplicateError)
      else
        (let cols = filled_columns all_rows;
             names = column_names schema (length cols);
             height = (if cols = [] then 0 else length (hd cols))
         in if \<not> list_all (\<lambda>col. length col = height) cols then Inl ShapeError
            else if length names \<noteq> length cols then Inl ShapeError
            else if \<not> distinct names then Inl DuplicateError
            else Inr \<lparr>columns = names,
                      data = map (\<lambda>i. map (\<lambda>col. col ! i) cols) [0..<height]\<rparr>))"

section \<open>scrape_table on a heap of objects\<close>

text \<open>
  Python lists are objects: a list that the caller holds changes when the callee
  appends to it, and the \<^verbatim>\<open>headers\<close> that \<^verbatim>\<open>scrape_table\<close> is given is the very list
  it returns. To say which objects a call changes, the objects are kept in a heap
  here: an address is an index into the list of objects, and a new object is put at
  its end. The scraper (\<^verbatim>\<open>self\<close>, with its \<^verbatim>\<open>url\<close>) and the document are objects too;
  \<^verbatim>\<open>find\<close>, \<^verbatim>\<open>find_all\<close> and \<^verbatim>\<open>text\<close> of bs4 read the document and build new result lists.
\<close>

type_synonym addr = nat

datatype obj =
    Scraper pstr
  | Soup node
  | StrList "pstr list"
  | RowList "addr list"

type_synonym heap = "obj list"

definition alloc :: "obj \<Rightarrow> heap \<Rightarrow> addr \<times> heap" where
  "alloc x h = (length h, h @ [x])"

text \<open>\<^verbatim>\<open>list.append\<close> of a string to a list of strings, and of a list to a list of lists:
  the object at the address is changed in place.\<close>

definition append_str :: "addr \<Rightarrow> pstr \<Rightarrow> heap \<Rightarrow> heap" where
  "append_str a s h = (case h ! a of StrList xs \<Rightarrow> h[a := StrList (xs @ [s])] | _ \<Rightarrow> h)"

definition append_ref :: "addr \<Rightarrow> addr \<Rightarrow> heap \<Rightarrow> heap" where
  "append_ref a r h = (case h ! a of RowList rs \<Rightarrow> h[a := RowList (rs @ [r])] | _ \<Rightarrow> h)"

text \<open>The strings of a list of strings, and the rows of a list of such lists, as the
  heap has them.\<close>

definition read_strs :: "heap \<Rightarrow> addr \<Rightarrow> pstr list" where
  "read_strs h a = (if a < length h then (case h ! a of StrList xs \<Rightarrow> xs | _ \<Rightarrow> []) else [])"

definition read_rows :: "heap \<Rightarrow> addr \<Rightarrow> pstr list list" where
  "read_rows h a =
     (if a < length h then (case h ! a of RowList rs \<Rightarrow> map (read_strs h) rs | _ \<Rightarrow> []) else [])"

text \<open>\<^verbatim>\<open>get_table_headers\<close>: a new list, appended to once for each \<^verbatim>\<open>th\<close>.\<close>

definition get_table_headers_heap :: "node \<Rightarrow> heap \<Rightarrow> addr \<times> heap" where
  "get_table_headers_heap table h =
     (let (headers, h1) = alloc (StrList []) h
      in (headers,
          foldl (\<lambda>h' header. append_str headers (strip (get_text header)) h') h1
            (find_all (u ''th'') table)))"

text \<open>The slice \<^verbatim>\<open>xs[:-1]\<close> is a new list.\<close>

definition slice_butlast :: "addr \<Rightarrow> heap \<Rightarrow> addr \<times> heap" where
  "slice_butlast a h = alloc (StrList (butlast (read_strs h a))) h"

text \<open>The loop over the \<^verbatim>\<open>tr\<close> tags of the table: the comprehension builds a new list of
  the cell texts, its slice is another new list, and the reference to the slice is
  appended to \<^verbatim>\<open>rows\<close>.\<close>

fun scrape_rows :: "addr \<Rightarrow> node list \<Rightarrow> heap \<Rightarrow> heap" where
  "scrape_rows rows [] h = h"
| "scrape_rows rows (row # rest) h =
     (let cells = find_all (u ''td'') row
      in if length cells > 0
         then (let (r, h1) = alloc (StrList (map (\<lambda>cell. strip (get_text cell)) cells)) h;
                   (r', h2) = slice_butlast r h1
               in scrape_rows rows rest (append_ref rows r' h2))
         else scrape_rows rows rest h)"

text \<open>
  \<^verbatim>\<open>scrape_table(self, soup, headers)\<close> with its arguments as references. A reference
  that does not hold a scraper or a document makes the attribute access fail.
\<close>

definition scrape_table_heap ::
  "addr \<Rightarrow> addr \<Rightarrow> addr option \<Rightarrow> heap \<Rightarrow> (error + addr \<times> addr) \<times> heap" where
  "scrape_table_heap self soup headers h =
     (case (if self < length h \<and> soup < length h then (h ! self, h ! soup)
            else (StrList [], StrList [])) of
        (Scraper address, Soup doc) \<Rightarrow>
          (let table = trades_table doc
           in case (case headers of
                      Some given \<Rightarrow> (Inr given, h)
                    | None \<Rightarrow>
                        (case table of
                           None \<Rightarrow> (Inl AttributeError, h)
                         | Some t \<Rightarrow>
                             (let (all_headers, h1) = get_table_headers_heap t h;
                                  (sliced, h2) = slice_butlast all_headers h1
                              in (Inr sliced, h2)))) of
                (Inl e, h2) \<Rightarrow> (Inl e, h2)
              | (Inr hs, h2) \<Rightarrow>
                  (let (rows, h3) = alloc (RowList []) h2
                   in (Inr (rows, hs),
                       (case table of
                          None \<Rightarrow> h3
                        | Some t \<Rightarrow> scrape_rows rows (find_all (u ''tr'') t) h3))))
      | _ \<Rightarrow> (Inl AttributeError, h))"

text \<open>What a caller sees of a result: the exception, or the rows and the headers read
  from the heap.\<close>

definition view :: "heap \<Rightarrow> error + addr \<times> addr \<Rightarrow> error + pstr list list \<times> pstr list" where
  "view h r = (case r of Inl e \<Rightarrow> Inl e | Inr (rows, hs) \<Rightarrow> Inr (read_rows h rows, read_strs h hs))"

section \<open>Size ranges as the specification writes them\<close>

text \<open>
  A bound \<^verbatim>\<open><a>[K|M]\<close>: a decimal number, given by the digits of its whole part and
  of its fraction (no fraction: no point is written), and an optional suffix. \<open>bound_str\<close>
  writes the bound, \<open>bound_value\<close> is the number it stands for, scaled by the suffix.
  \<open>bound_float\<close> is that number in binary floating point: the float nearest to the
  decimal number, and for a suffix the float nearest to the product of that float with
  1,000 or 1,000,000.
\<close>

datatype suffix = Plain | Kilo | Mega

record bound =
  whole :: "nat list"
  fraction :: "nat list"
  unit_suffix :: suffix

definition digit_chars :: "nat list \<Rightarrow> pstr" where
  "digit_chars ds = map (\<lambda>d. 48 + d) ds"

definition digits_number :: "nat list \<Rightarrow> nat" where
  "digits_number ds = foldl (\<lambda>a d. 10 * a + d) 0 ds"

definition decimal_str :: "nat list \<Rightarrow> nat list \<Rightarrow> pstr" where
  "decimal_str ip fp = digit_chars ip @ (if fp = [] then [] else 46 # digit_chars fp)"

definition decimal_value :: "nat list \<Rightarrow> nat list \<Rightarrow> rat" where
  "decimal_value ip fp = of_nat (digits_number ip) + of_nat (digits_number fp) / 10 ^ length fp"

definition suffix_str :: "suffix \<Rightarrow> pstr" where
  "suffix_str x = (case x of Plain \<Rightarrow> [] | Kilo \<Rightarrow> [75] | Mega \<Rightarrow> [77])"

definition scale :: "suffix \<Rightarrow> rat" where
  "scale x = (case x of Plain \<Rightarrow> 1 | Kilo \<Rightarrow> 1000 | Mega \<Rightarrow> 1000000)"

definition bound_str :: "bound \<Rightarrow> pstr" where
  "bound_str b = decimal_str (whole b) (fraction b) @ suffix_str (unit_suffix b)"

definition bound_value :: "bound \<Rightarrow> rat" where
  "bound_value b = decimal_value (whole b) (fraction b) * scale (unit_suffix b)"

definition decimal_float :: "nat list \<Rightarrow> nat list \<Rightarrow> pyfloat" where
  "decimal_float ip fp = round_ratio False (digits_number (ip @ fp)) (10 ^ length fp)"

definition bound_float :: "bound \<Rightarrow> pyfloat" where
  "bound_float b =
     (case unit_suffix b of
        Plain \<Rightarrow> decimal_float (whole b) (fraction b)
      | Kilo \<Rightarrow> fmul (decimal_float (whole b) (fraction b)) (float_of_nat 1000)
      | Mega \<Rightarrow> fmul (decimal_float (whole b) (fraction b)) (float_of_nat 1000000))"

definition valid_bound :: "bound \<Rightarrow> bool" where
  "valid_bound b \<longleftrightarrow>
     whole b \<noteq> [] \<and> list_all (\<lambda>d. d < 10) (whole b) \<and> list_all (\<lambda>d. d < 10) (fraction b)"

text \<open>The range \<^verbatim>\<open><a>[K|M]\<close>, en-dash, \<^verbatim>\<open><b>[K|M]\<close>.\<close>

definition size_range :: "bound \<Rightarrow> bound \<Rightarrow> pstr" where
  "size_range a b = bound_str a @ [8211] @ bound_str b"


section \<open>The header row as the specification has it\<close>

text \<open>The specification counts the header cells of the table's header row: the \<^verbatim>\<open>th\<close>
  cells of the first \<^verbatim>\<open>tr\<close> of the table.\<close>

definition header_row_cells :: "node \<Rightarrow> node list" where
  "header_row_cells table =
     (case find_all (u ''tr'') table of [] \<Rightarrow> [] | row # _ \<Rightarrow> find_all (u ''th'') row)"
section \<open>Example documents\<close>

definition cell :: "pstr \<Rightarrow> string \<Rightarrow> node" where
  "cell name s = Tag name [] [Text (u s)]"

definition no_table_soup :: node where
  "no_table_soup = Tag (u ''[document]'') [] [Tag (u ''p'') [] [Text (u ''maintenance'')]]"

definition small_soup :: node where
  "small_soup =
     Tag (u ''[document]'') []
       [Tag (u ''table'') [u ''q-table'', u ''trades-table'']
          [Tag (u ''tr'') [] [cell (u ''th'') ''A'', cell (u ''th'') ''B'', cell (u ''th'') ''Actions''],
           Tag (u ''tr'') [] [cell (u ''td'') '' x '', cell (u ''td'') ''y'', cell (u ''td'') ''z''],
           Tag (u ''tr'') [] [cell (u ''td'') ''only'']]]"

definition world0 :: world where
  "world0 = \<lparr>served = (\<lambda>k url. Inl RequestError), requests = []\<rparr>"

definition count_soup :: node where
  "count_soup =
     Tag (u ''[document]'') []
       [Tag (u ''p'') [u ''hidden'', u ''leading-7'', u ''sm:block'']
          [Text (u ''Page ''), cell (u ''b'') ''1'', Text (u '' of ''), cell (u ''b'') '' 3 '']]"

definition page2_soup :: node where
  "page2_soup =
     Tag (u ''[document]'') []
       [Tag (u ''table'') [u ''q-table'', u ''trades-table'']
          [Tag (u ''tr'') []
             [cell (u ''td'') ''p'', cell (u ''td'') ''q'', cell (u ''td'') ''r'', cell (u ''td'') ''s'']]]"

definition site :: "pstr \<Rightarrow> error + node" where
  "site a =
     (if a = url then Inr count_soup
      else if a = page_url 1 then Inr small_soup
      else if a = page_url 2 then Inr page2_soup
      else if a = page_url 3 then Inr no_table_soup
      else Inl RequestError)"

definition world3 :: world where
  "world3 = \<lparr>served = (\<lambda>k. site), requests = []\<rparr>"

text \<open>A stand-in for the constructor that hands back what it was given.\<close>

definition frame :: "pstr list list \<Rightarrow> pstr list option \<Rightarrow> error + pstr list list \<times> pstr list option" where
  "frame all_rows headers = Inr (all_rows, headers)"

definition offline :: world where
  "offline = \<lparr>served = (\<lambda>k a. Inr no_table_soup), requests = []\<rparr>"

text \<open>The fetches of a run over \<open>N\<close> pages as the specification's interface section lists
  them: the first page at the base URL, the pages \<open>2..N\<close> with the page parameter.\<close>

definition fetches_claimed :: "int \<Rightarrow> pstr list" where
  "fetches_claimed N = url # map page_url [2..N]"


text \<open>A table with a \<^verbatim>\<open>th\<close> cell in a body row.\<close>

definition row_header_soup :: node where
  "row_header_soup =
     Tag (u ''[document]'') []
       [Tag (u ''table'') [u ''q-table'', u ''trades-table'']
          [Tag (u ''tr'') [] [cell (u ''th'') ''A'', cell (u ''th'') ''B''],
           Tag (u ''tr'') [] [cell (u ''th'') ''X'', cell (u ''td'') ''v'', cell (u ''td'') ''w'']]]"

text \<open>A site of two pages whose rows fit the headers.\<close>

definition count2_soup :: node where
  "count2_soup =
     Tag (u ''[document]'') []
       [Tag (u ''p'') [u ''hidden'', u ''leading-7'', u ''sm:block'']
          [Text (u ''Page ''), cell (u ''b'') ''1'', Text (u '' of ''), cell (u ''b'') ''2'']]"

definition fit1_soup :: node where
  "fit1_soup =
     Tag (u ''[document]'') []
       [Tag (u ''table'') [u ''q-table'', u ''trades-table'']
          [Tag (u ''tr'') [] [cell (u ''th'') ''A'', cell (u ''th'') ''B'', cell (u ''th'') ''Actions''],
           Tag (u ''tr'') [] [cell (u ''td'') '' x '', cell (u ''td'') ''y'', cell (u ''td'') ''z'']]]"

definition fit2_soup :: node where
  "fit2_soup =
     Tag (u ''[document]'') []
       [Tag (u ''table'') [u ''q-table'', u ''trades-table'']
          [Tag (u ''tr'') [] [cell (u ''td'') ''p'', cell (u ''td'') ''q'', cell (u ''td'') ''go''],
           Tag (u ''tr'') [] [cell (u ''td'') ''r'', cell (u ''td'') ''s'', cell (u ''td'') ''go'']]]"

definition fit_site :: "pstr \<Rightarrow> error + node" where
  "fit_site a =
     (if a = url then Inr count2_soup
      else if a = page_url 1 then Inr fit1_soup
      else if a = page_url 2 then Inr fit2_soup
      else Inl RequestError)"

definition fit_world :: world where
  "fit_world = \<lparr>served = (\<lambda>k. fit_site), requests = []\<rparr>"

text \<open>A site of one page whose only row has three values under two headers.\<close>

definition count1_soup :: node where
  "count1_soup =
     Tag (u ''[document]'') []
       [Tag (u ''p'') [u ''hidden'', u ''leading-7'', u ''sm:block'']
          [Text (u ''Page ''), cell (u ''b'') ''1'', Text (u '' of ''), cell (u ''b'') ''1'']]"

definition wide_soup :: node where
  "wide_soup =
     Tag (u ''[document]'') []
       [Tag (u ''table'') [u ''q-table'', u ''trades-table'']
          [Tag (u ''tr'') [] [cell (u ''th'') ''A'', cell (u ''th'') ''B'', cell (u ''th'') ''Actions''],
           Tag (u ''tr'') []
             [cell (u ''td'') ''p'', cell (u ''td'') ''q'', cell (u ''td'') ''r'', cell (u ''td'') ''s'']]]"

definition wide_site :: "pstr \<Rightarrow> error + node" where
  "wide_site a =
     (if a = url then Inr count1_soup
      else if a = page_url 1 then Inr wide_soup
      else Inl RequestError)"

definition wide_world :: world where
  "wide_world = \<lparr>served = (\<lambda>k. wide_site), requests = []\<rparr>"

text \<open>A heap with a scraper, the small document and a header list of the caller.\<close>

definition heap0 :: heap where
  "heap0 = [Scraper url, Soup small_soup, StrList [u ''A'', u ''B'']]"
section \<open>Properties of scrape_table\<close>

lemma scrape_table_world: "snd (scrape_table soup headers w) = w"
  by (simp add: scrape_table_def Let_def split: option.split sum.split)

lemma scrape_table_found:
  assumes "trades_table soup = Some t"
  shows "scrape_table soup None w = (Inr (table_rows t, butlast (get_table_headers t)), w)"
    and "scrape_table soup (Some hs) w = (Inr (table_rows t, hs), w)"
  using assms by (simp_all add: scrape_table_def)

lemma scrape_table_absent:
  assumes "trades_table soup = None"
  shows "scrape_table soup None w = (Inl AttributeError, w)"
    and "scrape_table soup (Some hs) w = (Inr ([], hs), w)"
  using assms by (simp_all add: scrape_table_def)

lemmas doc_eval =
  trades_table_def find_class_def find_all_def get_table_headers_def table_rows_def
  row_values_def cells_of_def strip_def isspace_def u_def cell_def

lemma small_soup_table:
  "trades_table small_soup =
     Some (Tag (u ''table'') [u ''q-table'', u ''trades-table'']
          [Tag (u ''tr'') [] [cell (u ''th'') ''A'', cell (u ''th'') ''B'', cell (u ''th'') ''Actions''],
           Tag (u ''tr'') [] [cell (u ''td'') '' x '', cell (u ''td'') ''y'', cell (u ''td'') ''z''],
           Tag (u ''tr'') [] [cell (u ''td'') ''only'']])"
  by (simp add: small_soup_def doc_eval)

lemma small_soup_scraped:
  "scrape_table small_soup None w = (Inr ([[u ''x'', u ''y''], []], [u ''A'', u ''B'']), w)"
  by (simp add: scrape_table_def small_soup_def doc_eval)

text \<open>
  C3. A document without the trades table, scraped with no header sequence (as the first
  page of a run is): \<^verbatim>\<open>scrape_table\<close> raises \<^verbatim>\<open>AttributeError\<close> where the claim
  promises an empty row sequence. With a header sequence given, the same document gives
  the empty row sequence.
\<close>

theorem scrape_table_no_table_raises:
  "trades_table no_table_soup = None \<and>
   fst (scrape_table no_table_soup None world0) = Inl AttributeError \<and>
   fst (scrape_table no_table_soup (Some [u ''A'', u ''B'']) world0) = Inr ([], [u ''A'', u ''B''])"
  by (simp add: scrape_table_def no_table_soup_def doc_eval)

text \<open>
  C6, as the code has it. When the table is there and no header sequence is given, the
  derived header sequence is the stripped text of all \<^verbatim>\<open>th\<close> cells below the table, in
  whatever row they stand, without the last of them: \<open>N\<close> such cells give \<open>N - 1\<close>
  headers (none when \<open>N = 0\<close>). Every row with at least one \<^verbatim>\<open>td\<close> cell is kept, in
  document order, as the stripped text of its \<^verbatim>\<open>td\<close> cells without the last one,
  whether a header sequence was given or not.
\<close>

theorem scrape_table_drops_last_column:
  assumes "trades_table soup = Some t"
  shows "\<exists>rows hs.
           scrape_table soup None w = (Inr (rows, hs), w) \<and>
           scrape_table soup (Some given) w = (Inr (rows, given), w) \<and>
           hs = butlast (map (\<lambda>h. strip (get_text h)) (find_all (u ''th'') t)) \<and>
           length hs = length (find_all (u ''th'') t) - 1 \<and>
           (0 < length (find_all (u ''th'') t) \<longrightarrow> length hs + 1 = length (find_all (u ''th'') t)) \<and>
           rows = map (\<lambda>row. butlast (map (\<lambda>c. strip (get_text c)) (find_all (u ''td'') row)))
                    (filter (\<lambda>row. 0 < length (find_all (u ''td'') row)) (find_all (u ''tr'') t)) \<and>
           (\<forall>i < length rows.
              length (rows ! i) + 1 =
              length (find_all (u ''td'')
                (filter (\<lambda>row. 0 < length (find_all (u ''td'') row)) (find_all (u ''tr'') t) ! i)))"
proof -
  let ?ths = "find_all (u ''th'') t"
  let ?kept = "filter (\<lambda>row. 0 < length (find_all (u ''td'') row)) (find_all (u ''tr'') t)"
  have kept: "0 < length (find_all (u ''td'') (?kept ! i))" if "i < length ?kept" for i
    using nth_mem [OF that] by simp
  have rows: "table_rows t = map row_values ?kept"
    by (simp add: table_rows_def cells_of_def)
  have len: "length (table_rows t ! i) + 1 = length (find_all (u ''td'') (?kept ! i))"
    if "i < length (table_rows t)" for i
    using that kept [of i] by (simp add: rows row_values_def cells_of_def)
  show ?thesis
    using scrape_table_found [OF assms, where w = w] len
    by (auto simp add: get_table_headers_def rows row_values_def cells_of_def)
qed

theorem scrape_table_drops_last_column_witness:
  "\<exists>rows hs.
      scrape_table small_soup None world0 = (Inr (rows, hs), world0) \<and>
      hs = [u ''A'', u ''B''] \<and> rows = [[u ''x'', u ''y''], []]"
  using scrape_table_drops_last_column [OF small_soup_table, where w = world0]
  by (simp add: small_soup_scraped)

text \<open>
  C6 as the claim states it fails for a table with a \<^verbatim>\<open>th\<close> cell outside its header row.
  The header row of the table below has the \<open>N = 2\<close> header cells \<^verbatim>\<open>A\<close> and \<^verbatim>\<open>B\<close>, and a
  body row starts with the \<^verbatim>\<open>th\<close> cell \<^verbatim>\<open>X\<close>: the derived header sequence is \<^verbatim>\<open>A\<close>, \<^verbatim>\<open>B\<close>,
  of length 2 and not \<open>N - 1 = 1\<close>, and the final header cell \<^verbatim>\<open>B\<close> is not discarded.
\<close>

theorem scrape_table_header_row_counterexample:
  "map get_text
     (header_row_cells
        (Tag (u ''table'') [u ''q-table'', u ''trades-table'']
          [Tag (u ''tr'') [] [cell (u ''th'') ''A'', cell (u ''th'') ''B''],
           Tag (u ''tr'') [] [cell (u ''th'') ''X'', cell (u ''td'') ''v'', cell (u ''td'') ''w'']])) =
     [u ''A'', u ''B''] \<and>
   trades_table row_header_soup =
     Some (Tag (u ''table'') [u ''q-table'', u ''trades-table'']
          [Tag (u ''tr'') [] [cell (u ''th'') ''A'', cell (u ''th'') ''B''],
           Tag (u ''tr'') [] [cell (u ''th'') ''X'', cell (u ''td'') ''v'', cell (u ''td'') ''w'']]) \<and>
   scrape_table row_header_soup None world0 = (Inr ([[u ''v'']], [u ''A'', u ''B'']), world0) \<and>
   length [u ''A'', u ''B''] \<noteq> length [u ''A'', u ''B''] - 1"
  by (simp add: header_row_cells_def scrape_table_def row_header_soup_def doc_eval)

text \<open>
  C10. A \<^verbatim>\<open>tr\<close> of the table with exactly one \<^verbatim>\<open>td\<close> cell is kept, and the value
  sequence appended for it is empty, whatever the header sequence is.
\<close>

theorem scrape_table_single_cell_row:
  assumes "trades_table soup = Some t"
    and "row \<in> set (find_all (u ''tr'') t)"
    and "length (find_all (u ''td'') row) = 1"
  shows "\<exists>rows hs kept.
           scrape_table soup headers w = (Inr (rows, hs), w) \<and>
           kept = filter (\<lambda>r. 0 < length (find_all (u ''td'') r)) (find_all (u ''tr'') t) \<and>
           rows = map row_values kept \<and> row \<in> set kept \<and> row_values row = [] \<and>
           [] \<in> set rows"
proof -
  let ?kept = "filter (\<lambda>r. 0 < length (find_all (u ''td'') r)) (find_all (u ''tr'') t)"
  have rows: "table_rows t = map row_values ?kept"
    by (simp add: table_rows_def cells_of_def)
  have mem: "row \<in> set ?kept"
    using assms(2,3) by auto
  have "length (map (\<lambda>c. strip (get_text c)) (cells_of row)) = 1"
    using assms(3) by (simp add: cells_of_def)
  then have empty: "row_values row = []"
    unfolding row_values_def by (metis One_nat_def butlast.simps(2) length_0_conv length_Suc_conv)
  have "[] \<in> set (table_rows t)"
    unfolding rows using mem empty by (metis image_eqI set_map)
  then show ?thesis
    using scrape_table_found [OF assms(1), where w = w] rows mem empty
    by (cases headers) auto
qed

theorem scrape_table_single_cell_row_witness:
  "\<exists>rows hs. scrape_table small_soup (Some [u ''A'', u ''B'']) world0 = (Inr (rows, hs), world0) \<and>
     row_values (Tag (u ''tr'') [] [cell (u ''td'') ''only'']) = [] \<and> [] \<in> set rows"
  using scrape_table_single_cell_row [OF small_soup_table,
      where row = "Tag (u ''tr'') [] [cell (u ''td'') ''only'']"
        and headers = "Some [u ''A'', u ''B'']" and w = world0]
  by (auto simp add: doc_eval)

section \<open>Properties of number_of_pages and scrape_trades\<close>

lemma scrape_table_given:
  "scrape_table soup (Some hs) w = (Inr (page_rows_of soup, hs), w)"
  by (simp add: scrape_table_def page_rows_of_def)

lemma scrape_pages_run:
  assumes "length docs = length ps"
    and "\<And>i. i < length ps \<Longrightarrow>
           served w (length (requests w) + i) (page_url (ps ! i)) = Inr (docs ! i)"
  shows "scrape_pages ps acc (Some hs) w =
           (Inr (acc @ concat (map page_rows_of docs), Some hs),
            w\<lparr>requests := requests w @ map page_url ps\<rparr>)"
  using assms
proof (induction ps arbitrary: docs acc w)
  case Nil
  then show ?case by simp
next
  case (Cons p ps)
  then obtain d ds where docs: "docs = d # ds" and len: "length ds = length ps"
    by (cases docs) auto
  let ?w1 = "w\<lparr>requests := requests w @ [page_url p]\<rparr>"
  have first: "served w (length (requests w)) (page_url p) = Inr d"
    using Cons.prems(2) [of 0] docs by simp
  have rest: "served ?w1 (length (requests ?w1) + i) (page_url (ps ! i)) = Inr (ds ! i)"
    if "i < length ps" for i
    using Cons.prems(2) [of "Suc i"] that docs by simp
  have IH: "scrape_pages ps (acc @ page_rows_of d) (Some hs) ?w1 =
      (Inr ((acc @ page_rows_of d) @ concat (map page_rows_of ds), Some hs),
       ?w1\<lparr>requests := requests ?w1 @ map page_url ps\<rparr>)"
    by (rule Cons.IH [OF len rest])
  show ?case
    using IH
    by (cases "page_rows_of d = []") (simp_all add: get_html_soup_def first scrape_table_given docs)
qed

lemma number_of_pages_served:
  assumes "served w (length (requests w)) url = Inr first_page"
  shows "number_of_pages w =
           (py_int (total_pages_text first_page), w\<lparr>requests := requests w @ [url]\<rparr>)"
  using assms by (simp add: number_of_pages_def get_html_soup_def)

lemma scrape_trades_run:
  assumes count: "served w (length (requests w)) url = Inr first_page"
    and N: "py_int (total_pages_text first_page) = Inr N"
    and pages: "\<And>p. 1 \<le> p \<Longrightarrow> p \<le> N \<Longrightarrow>
                  served w (length (requests w) + nat p) (page_url p) = Inr (doc p)"
    and table: "1 \<le> N \<Longrightarrow> trades_table (doc 1) = Some t"
  shows "scrape_trades DataFrame w =
           (DataFrame (concat (map (\<lambda>p. page_rows_of (doc p)) [1..N]))
              (if 1 \<le> N then Some (butlast (get_table_headers t)) else None),
            w\<lparr>requests := requests w @ url # map page_url [1..N]\<rparr>)"
proof (cases "1 \<le> N")
  case False
  then have "[1..N] = []" by simp
  then show ?thesis
    using False by (simp add: scrape_trades_def number_of_pages_served [OF count] N)
next
  case True
  let ?w1 = "w\<lparr>requests := requests w @ [url]\<rparr>"
  let ?w2 = "w\<lparr>requests := requests w @ [url, page_url 1]\<rparr>"
  let ?hs = "butlast (get_table_headers t)"
  have upto: "[1..N] = 1 # [2..N]"
    using True by (simp add: upto_rec1)
  have rows1: "page_rows_of (doc 1) = table_rows t"
    using table [OF True] by (simp add: page_rows_of_def)
  have rest: "served ?w2 (length (requests ?w2) + i) (page_url ([2..N] ! i)) = Inr (map doc [2..N] ! i)"
    if "i < length [2..N]" for i
  proof -
    have i: "[2..N] ! i = 2 + int i" using that by simp
    have "2 + int i \<le> N" using that by simp
    then show ?thesis
      using pages [of "2 + int i"] that by (simp add: i nat_add_distrib)
  qed
  have tail: "scrape_pages [2..N] (table_rows t) (Some ?hs) ?w2 =
      (Inr (table_rows t @ concat (map page_rows_of (map doc [2..N])), Some ?hs),
       ?w2\<lparr>requests := requests ?w2 @ map page_url [2..N]\<rparr>)"
    by (rule scrape_pages_run [OF _ rest]) simp_all
  have head: "scrape_pages [1..N] [] None ?w1 = scrape_pages [2..N] (table_rows t) (Some ?hs) ?w2"
    using pages [of 1] True scrape_table_found(1) [OF table [OF True]]
    by (cases "table_rows t = []") (simp_all add: upto get_html_soup_def)
  show ?thesis
    using True
    by (simp add: scrape_trades_def number_of_pages_served [OF count] N head tail)
       (simp add: upto rows1 comp_def)
qed

lemmas url_eval = url_def page_url_def str_int_def u_def

lemma count_soup_pages: "py_int (total_pages_text count_soup) = Inr 3"
  by (simp add: py_int_def total_pages_text_def page_info_of_def count_soup_def int_of_str_def
      to_ascii_def to_ascii_char_def strip_ascii_def ascii_space_def is_digit_def
      digits_value_def Let_def doc_eval)

lemma site_pages:
  "site url = Inr count_soup" "site (page_url 1) = Inr small_soup"
  "site (page_url 2) = Inr page2_soup" "site (page_url 3) = Inr no_table_soup"
  by (simp_all add: site_def url_eval)

lemma page_rows_examples:
  "page_rows_of small_soup = [[u ''x'', u ''y''], []]"
  "page_rows_of page2_soup = [[u ''p'', u ''q'', u ''r'']]"
  "page_rows_of no_table_soup = []"
  by (simp_all add: page_rows_of_def small_soup_def page2_soup_def no_table_soup_def doc_eval)

lemma upto_1_3: "[1..3] = [1, 2, 3::int]"
  by (simp add: upto_rec1)

lemma world3_run:
  "scrape_trades DataFrame world3 =
     (DataFrame [[u ''x'', u ''y''], [], [u ''p'', u ''q'', u ''r'']] (Some [u ''A'', u ''B'']),
      world3\<lparr>requests := [url, page_url 1, page_url 2, page_url 3]\<rparr>)"
proof -
  let ?doc = "\<lambda>p::int. if p = 1 then small_soup else if p = 2 then page2_soup else no_table_soup"
  have pages: "served world3 (length (requests world3) + nat p) (page_url p) = Inr (?doc p)"
    if "1 \<le> p" "p \<le> 3" for p
  proof -
    have "p = 1 \<or> p = 2 \<or> p = 3" using that by auto
    then show ?thesis by (auto simp add: world3_def site_pages)
  qed
  have "scrape_trades DataFrame world3 =
      (DataFrame (concat (map (\<lambda>p. page_rows_of (?doc p)) [1..3]))
         (if (1::int) \<le> 3 then Some (butlast (get_table_headers (the (trades_table small_soup)))) else None),
       world3\<lparr>requests := requests world3 @ url # map page_url [1..3]\<rparr>)"
    by (rule scrape_trades_run [where first_page = count_soup])
       (simp_all add: world3_def site_pages count_soup_pages pages [simplified world3_def, simplified] small_soup_table)
  then show ?thesis
    by (simp add: upto_1_3 page_rows_examples small_soup_table world3_def)
       (simp add: doc_eval)
qed

lemma scrape_pages_extends:
  "scrape_pages pages acc headers w = (Inr (final, hs), w') \<Longrightarrow> \<exists>later. final = acc @ later"
proof (induction pages arbitrary: acc headers w)
  case Nil
  then show ?case by simp
next
  case (Cons page pages)
  show ?case
  proof (cases "served w (length (requests w)) (page_url page)")
    case (Inl e)
    then show ?thesis using Cons.prems by (simp add: get_html_soup_def)
  next
    case (Inr soup)
    let ?w1 = "w\<lparr>requests := requests w @ [page_url page]\<rparr>"
    show ?thesis
    proof (cases "fst (scrape_table soup headers ?w1)")
      case (Inl e)
      then have "scrape_table soup headers ?w1 = (Inl e, ?w1)"
        using scrape_table_world [of soup headers ?w1] by (metis prod.collapse)
      then show ?thesis using Cons.prems Inr by (simp add: get_html_soup_def)
    next
      case (Inr r)
      obtain page_rows hs1 where r: "r = (page_rows, hs1)" by (cases r)
      have st: "scrape_table soup headers ?w1 = (Inr (page_rows, hs1), ?w1)"
        using Inr r scrape_table_world [of soup headers ?w1] by (metis prod.collapse)
      have "scrape_pages pages (acc @ page_rows) (Some hs1) ?w1 = (Inr (final, hs), w')"
        using Cons.prems \<open>served w (length (requests w)) (page_url page) = Inr soup\<close> st
        by (cases "page_rows = []") (simp_all add: get_html_soup_def)
      from Cons.IH [OF this] show ?thesis by auto
    qed
  qed
qed

text \<open>
  C4. When the first page was fetched and its descriptive paragraph is missing, or holds
  fewer than two \<^verbatim>\<open>b\<close> tags, \<^verbatim>\<open>total_pages\<close> is still \<^verbatim>\<open>None\<close> at
  \<^verbatim>\<open>int(total_pages)\<close>: \<^verbatim>\<open>number_of_pages\<close> raises \<^verbatim>\<open>TypeError\<close>, and so does
  its caller \<^verbatim>\<open>scrape_trades\<close>, after the one request. No page count is returned.
\<close>

theorem number_of_pages_indeterminate:
  assumes "served w (length (requests w)) url = Inr soup"
    and "page_info_of soup = None \<or>
         (\<exists>page_info. page_info_of soup = Some page_info \<and> length (find_all (u ''b'') page_info) < 2)"
  shows "number_of_pages w = (Inl TypeError, w\<lparr>requests := requests w @ [url]\<rparr>) \<and>
         scrape_trades DataFrame w = (Inl TypeError, w\<lparr>requests := requests w @ [url]\<rparr>)"
proof -
  have "total_pages_text soup = None"
    using assms(2) by (auto simp add: total_pages_text_def Let_def)
  then have "number_of_pages w = (Inl TypeError, w\<lparr>requests := requests w @ [url]\<rparr>)"
    by (simp add: number_of_pages_served [OF assms(1)] py_int_def)
  then show ?thesis
    by (simp add: scrape_trades_def)
qed

text \<open>The theorem on a site that answers every request with a page that has no such
  paragraph.\<close>

theorem number_of_pages_indeterminate_witness:
  "page_info_of no_table_soup = None \<and>
   fst (number_of_pages offline) = Inl TypeError \<and>
   fst (scrape_trades frame offline) = Inl TypeError \<and>
   requests (snd (scrape_trades frame offline)) = [url]"
  using number_of_pages_indeterminate [where w = offline and soup = no_table_soup and DataFrame = frame]
  by (simp add: offline_def page_info_of_def no_table_soup_def doc_eval)


lemma column_names_given:
  assumes "headers \<noteq> []" "[] \<notin> set headers"
  shows "column_names (Some headers) width = headers"
proof -
  have "map (\<lambda>(i, h). if h = [] then auto_name i else h) (zip [0..<length headers] headers) =
        map snd (zip [0..<length headers] headers)"
  proof (rule map_cong [OF refl])
    fix x assume x: "x \<in> set (zip [0..<length headers] headers)"
    obtain i h where ih: "x = (i, h)" by (cases x)
    have "h \<in> set headers" using x ih by (auto dest: set_zip_rightD)
    then have "h \<noteq> []" using assms(2) by auto
    then show "(case x of (i, h) \<Rightarrow> if h = [] then auto_name i else h) = snd x"
      by (simp add: ih)
  qed
  also have "\<dots> = headers" by (simp add: map_snd_zip)
  finally show ?thesis using assms(1) by (simp add: column_names_def)
qed

lemma filled_columns_fit:
  assumes "all_rows \<noteq> []" "\<And>row. row \<in> set all_rows \<Longrightarrow> length row = n"
  shows "filled_columns all_rows = map (\<lambda>j. map (\<lambda>row. row ! j) all_rows) [0..<n]"
proof -
  have hd: "length (hd all_rows) = n" using assms by simp
  have keep: "filter (\<lambda>row. j < length row) all_rows = all_rows" if "j < n" for j
    using that assms(2) by (simp add: filter_id_conv)
  show ?thesis
    unfolding filled_columns_def hd
    by (rule map_cong [OF refl]) (simp add: keep)
qed

lemma transpose_back:
  assumes "\<And>row. row \<in> set all_rows \<Longrightarrow> length row = n"
  shows "map (\<lambda>i. map (\<lambda>col. col ! i) (map (\<lambda>j. map (\<lambda>row. row ! j) all_rows) [0..<n]))
           [0..<length all_rows] = all_rows"
proof (rule nth_equalityI)
  show "length (map (\<lambda>i. map (\<lambda>col. col ! i) (map (\<lambda>j. map (\<lambda>row. row ! j) all_rows) [0..<n]))
           [0..<length all_rows]) = length all_rows" by simp
next
  fix i
  assume "i < length (map (\<lambda>i. map (\<lambda>col. col ! i) (map (\<lambda>j. map (\<lambda>row. row ! j) all_rows) [0..<n]))
           [0..<length all_rows])"
  then have i: "i < length all_rows" by simp
  then have li: "length (all_rows ! i) = n" using assms by simp
  have "map (\<lambda>col. col ! i) (map (\<lambda>j. map (\<lambda>row. row ! j) all_rows) [0..<n]) = all_rows ! i"
  proof (rule nth_equalityI)
    show "length (map (\<lambda>col. col ! i) (map (\<lambda>j. map (\<lambda>row. row ! j) all_rows) [0..<n])) =
          length (all_rows ! i)" using li by simp
  next
    fix j assume "j < length (map (\<lambda>col. col ! i) (map (\<lambda>j. map (\<lambda>row. row ! j) all_rows) [0..<n]))"
    then have "j < n" by simp
    then show "map (\<lambda>col. col ! i) (map (\<lambda>j. map (\<lambda>row. row ! j) all_rows) [0..<n]) ! j =
               all_rows ! i ! j"
      using i by simp
  qed
  then show "map (\<lambda>i. map (\<lambda>col. col ! i) (map (\<lambda>j. map (\<lambda>row. row ! j) all_rows) [0..<n]))
           [0..<length all_rows] ! i = all_rows ! i"
    using i by simp
qed

lemma pl_DataFrame_fits:
  assumes fit: "fits all_rows headers"
  shows "pl_DataFrame all_rows (Some headers) = Inr \<lparr>columns = headers, data = all_rows\<rparr>"
proof (cases "all_rows = []")
  case True
  show ?thesis
    using True fit by (simp add: pl_DataFrame_def column_names_given fits_def)
next
  case False
  let ?n = "length headers"
  let ?cols = "map (\<lambda>j. map (\<lambda>row. row ! j) all_rows) [0..<?n]"
  have len: "\<And>row. row \<in> set all_rows \<Longrightarrow> length row = ?n"
    using fit by (simp add: fits_def list_all_iff)
  have n: "0 < ?n" using fit by (simp add: fits_def)
  have cols: "filled_columns all_rows = ?cols"
    by (rule filled_columns_fit [OF False len])
  have names: "column_names (Some headers) (length ?cols) = headers"
    using fit by (simp add: column_names_given fits_def del: length_map)
  have ne: "?cols \<noteq> []" using n by simp
  have height: "length (hd ?cols) = length all_rows"
    using n by (simp add: hd_map upt_conv_Cons)
  have all: "list_all (\<lambda>col. length col = length all_rows) ?cols"
    by (simp add: list_all_iff)
  have dist: "distinct headers" using fit by (simp add: fits_def)
  have lc: "length ?cols = ?n" by simp
  show ?thesis
    unfolding pl_DataFrame_def Let_def cols names
    using False ne all dist
    by (simp only: height transpose_back [OF len] lc if_False if_True simp_thms)
qed

lemma pl_DataFrame_builds: "builds_frames pl_DataFrame"
proof -
  have "pl_DataFrame [] None = Inr \<lparr>columns = [], data = []\<rparr>"
    by (simp add: pl_DataFrame_def column_names_def)
  then show ?thesis
    by (simp add: builds_frames_def pl_DataFrame_fits)
qed

lemma pl_world3_frame:
  "pl_DataFrame [[u ''x'', u ''y''], [], [u ''p'', u ''q'', u ''r'']] (Some [u ''A'', u ''B'']) =
     Inr \<lparr>columns = [u ''A'', u ''B''], data = [[u ''x'', u ''y''], [u ''p'', u ''q'']]\<rparr>"
  by (simp add: pl_DataFrame_def filled_columns_def column_names_def upt_conv_Cons u_def)

lemma pl_wide_frame:
  "pl_DataFrame [[u ''p'', u ''q'', u ''r'']] (Some [u ''A'', u ''B'']) = Inl ShapeError"
  by (simp add: pl_DataFrame_def filled_columns_def column_names_def upt_conv_Cons u_def)

lemma count_pages_1_2:
  "py_int (total_pages_text count1_soup) = Inr 1" "py_int (total_pages_text count2_soup) = Inr 2"
  by (simp_all add: py_int_def total_pages_text_def page_info_of_def count1_soup_def count2_soup_def
      int_of_str_def to_ascii_def to_ascii_char_def strip_ascii_def ascii_space_def is_digit_def
      digits_value_def Let_def doc_eval)

lemma more_site_pages:
  "fit_site url = Inr count2_soup" "fit_site (page_url 1) = Inr fit1_soup"
  "fit_site (page_url 2) = Inr fit2_soup"
  "wide_site url = Inr count1_soup" "wide_site (page_url 1) = Inr wide_soup"
  by (simp_all add: fit_site_def wide_site_def url_eval)

lemma more_tables:
  "trades_table fit1_soup =
     Some (Tag (u ''table'') [u ''q-table'', u ''trades-table'']
          [Tag (u ''tr'') [] [cell (u ''th'') ''A'', cell (u ''th'') ''B'', cell (u ''th'') ''Actions''],
           Tag (u ''tr'') [] [cell (u ''td'') '' x '', cell (u ''td'') ''y'', cell (u ''td'') ''z'']])"
  "trades_table wide_soup =
     Some (Tag (u ''table'') [u ''q-table'', u ''trades-table'']
          [Tag (u ''tr'') [] [cell (u ''th'') ''A'', cell (u ''th'') ''B'', cell (u ''th'') ''Actions''],
           Tag (u ''tr'') []
             [cell (u ''td'') ''p'', cell (u ''td'') ''q'', cell (u ''td'') ''r'', cell (u ''td'') ''s'']])"
  by (simp_all add: fit1_soup_def wide_soup_def doc_eval)

lemma more_page_rows:
  "page_rows_of fit1_soup = [[u ''x'', u ''y'']]"
  "page_rows_of fit2_soup = [[u ''p'', u ''q''], [u ''r'', u ''s'']]"
  "page_rows_of wide_soup = [[u ''p'', u ''q'', u ''r'']]"
  by (simp_all add: page_rows_of_def fit1_soup_def fit2_soup_def wide_soup_def doc_eval)

lemma more_headers:
  "butlast (get_table_headers (the (trades_table fit1_soup))) = [u ''A'', u ''B'']"
  "butlast (get_table_headers (the (trades_table wide_soup))) = [u ''A'', u ''B'']"
  by (simp_all add: fit1_soup_def wide_soup_def doc_eval)

lemma upto_small: "[1..1] = [1::int]" "[1..2] = [1, 2::int]"
  by (simp_all add: upto_rec1)

lemma wide_world_run:
  "scrape_trades DataFrame wide_world =
     (DataFrame [[u ''p'', u ''q'', u ''r'']] (Some [u ''A'', u ''B'']),
      wide_world\<lparr>requests := [url, page_url 1]\<rparr>)"
proof -
  have pages: "served wide_world (length (requests wide_world) + nat p) (page_url p) = Inr wide_soup"
    if "1 \<le> p" "p \<le> 1" for p
  proof -
    have "p = 1" using that by auto
    then show ?thesis by (simp add: wide_world_def more_site_pages)
  qed
  have "scrape_trades DataFrame wide_world =
      (DataFrame (concat (map (\<lambda>p. page_rows_of wide_soup) [1..1]))
         (if (1::int) \<le> 1 then Some (butlast (get_table_headers (the (trades_table wide_soup)))) else None),
       wide_world\<lparr>requests := requests wide_world @ url # map page_url [1..1]\<rparr>)"
    by (rule scrape_trades_run [where first_page = count1_soup])
       (simp_all add: wide_world_def more_site_pages count_pages_1_2 pages [simplified wide_world_def, simplified] more_tables)
  then show ?thesis
    by (simp add: upto_small more_page_rows more_headers wide_world_def)
qed

text \<open>
  C2, as the code has it. Let the first request of the run (for the base URL, made by
  \<^verbatim>\<open>number_of_pages\<close>) be answered by a page whose count reads \<open>N\<close>, let the request
  for each page \<open>p\<close> of \<open>1..N\<close> be answered by the document \<open>doc p\<close>, and let the first
  page hold the trades table. Then the run asks for the base URL once and then for
  \<^verbatim>\<open>?page=p\<close> for every \<open>p\<close> of \<open>1..N\<close> in order, page 1 included: \<open>N + 1\<close> requests
  for \<open>N \<ge> 0\<close>. When the rows of the pages fit the headers of the first page, the table
  returned holds the rows of the pages concatenated in page order, as many as the
  pages' row counts add up to; for \<open>N < 1\<close> it is the table without columns and rows.
\<close>

theorem scrape_trades_fetches:
  assumes "served w (length (requests w)) url = Inr first_page"
    and "py_int (total_pages_text first_page) = Inr N"
    and "\<And>p. 1 \<le> p \<Longrightarrow> p \<le> N \<Longrightarrow>
           served w (length (requests w) + nat p) (page_url p) = Inr (doc p)"
    and "1 \<le> N \<Longrightarrow> trades_table (doc 1) = Some t"
  shows "requests (snd (scrape_trades DataFrame w)) = requests w @ url # map page_url [1..N] \<and>
         length (url # map page_url [1..N]) = 1 + nat N \<and>
         (builds_frames DataFrame \<and> 1 \<le> N \<and>
          fits (concat (map (\<lambda>p. page_rows_of (doc p)) [1..N])) (butlast (get_table_headers t)) \<longrightarrow>
            fst (scrape_trades DataFrame w) =
              Inr \<lparr>columns = butlast (get_table_headers t),
                   data = concat (map (\<lambda>p. page_rows_of (doc p)) [1..N])\<rparr> \<and>
            length (concat (map (\<lambda>p. page_rows_of (doc p)) [1..N])) =
              sum_list (map (\<lambda>p. length (page_rows_of (doc p))) [1..N])) \<and>
         (builds_frames DataFrame \<and> N < 1 \<longrightarrow>
            fst (scrape_trades DataFrame w) = Inr \<lparr>columns = [], data = []\<rparr>)"
proof -
  have run: "scrape_trades DataFrame w =
           (DataFrame (concat (map (\<lambda>p. page_rows_of (doc p)) [1..N]))
              (if 1 \<le> N then Some (butlast (get_table_headers t)) else None),
            w\<lparr>requests := requests w @ url # map page_url [1..N]\<rparr>)"
    by (rule scrape_trades_run [OF assms])
  have count: "length (concat (map (\<lambda>p. page_rows_of (doc p)) [1..N])) =
        sum_list (map (\<lambda>p. length (page_rows_of (doc p))) [1..N])"
    by (simp add: length_concat comp_def)
  have none: "N < 1 \<Longrightarrow> [1..N] = []" by simp
  show ?thesis
    using count by (auto simp add: run builds_frames_def none)
qed

text \<open>The theorem on a site of two pages with one and two rows of two values: three
  requests, and a table of three rows.\<close>

theorem scrape_trades_fetches_witness:
  "builds_frames pl_DataFrame \<and>
   fits [[u ''x'', u ''y''], [u ''p'', u ''q''], [u ''r'', u ''s'']] [u ''A'', u ''B''] \<and>
   requests (snd (scrape_trades pl_DataFrame fit_world)) = [url, page_url 1, page_url 2] \<and>
   fst (scrape_trades pl_DataFrame fit_world) =
     Inr \<lparr>columns = [u ''A'', u ''B''],
          data = [[u ''x'', u ''y''], [u ''p'', u ''q''], [u ''r'', u ''s'']]\<rparr> \<and>
   length (page_rows_of fit1_soup) + length (page_rows_of fit2_soup) = 3"
proof -
  let ?doc = "\<lambda>p::int. if p = 1 then fit1_soup else fit2_soup"
  have pages: "served fit_world (length (requests fit_world) + nat p) (page_url p) = Inr (?doc p)"
    if "1 \<le> p" "p \<le> 2" for p
  proof -
    have "p = 1 \<or> p = 2" using that by auto
    then show ?thesis by (auto simp add: fit_world_def more_site_pages)
  qed
  have first: "served fit_world (length (requests fit_world)) url = Inr count2_soup"
    by (simp add: fit_world_def more_site_pages)
  have table: "trades_table (?doc 1) = Some (the (trades_table fit1_soup))"
    by (simp add: more_tables)
  have fit: "fits [[u ''x'', u ''y''], [u ''p'', u ''q''], [u ''r'', u ''s'']] [u ''A'', u ''B'']"
    by (simp add: fits_def u_def)
  show ?thesis
    using scrape_trades_fetches [OF first count_pages_1_2(2) pages table, where DataFrame = pl_DataFrame]
      pl_DataFrame_builds fit
    by (simp add: upto_small more_page_rows more_headers fit_world_def)
qed

text \<open>
  C2 as the claim states it fails on the site \<open>world3\<close> of three pages. The claim has
  page 1 fetched at the base URL and the page parameter used for the pages \<open>2..N\<close> only,
  \<open>N\<close> fetches in all: the run asks for \<^verbatim>\<open>?page=1\<close> as well, after the base URL, four
  requests. And the claim has as many rows in the table as the pages have together:
  the pages have 2, 1 and 0 rows, of 2, 0 and 3 values under two headers, and the table
  has 2 rows.
\<close>

theorem scrape_trades_page1_counterexample:
  "requests (snd (scrape_trades pl_DataFrame world3)) = [url, page_url 1, page_url 2, page_url 3] \<and>
   fetches_claimed 3 = [url, page_url 2, page_url 3] \<and>
   requests (snd (scrape_trades pl_DataFrame world3)) \<noteq> fetches_claimed 3 \<and>
   length (requests (snd (scrape_trades pl_DataFrame world3))) \<noteq> 3 \<and>
   fst (scrape_trades pl_DataFrame world3) =
     Inr \<lparr>columns = [u ''A'', u ''B''], data = [[u ''x'', u ''y''], [u ''p'', u ''q'']]\<rparr> \<and>
   length (page_rows_of small_soup) + length (page_rows_of page2_soup) +
     length (page_rows_of no_table_soup) = 3 \<and>
   length [[u ''x'', u ''y''], [u ''p'', u ''q'']] \<noteq> (3::nat)"
  by (simp add: world3_run pl_world3_frame fetches_claimed_def upto_rec1 page_rows_examples)

lemma upto_around:
  assumes "1 \<le> p" "p \<le> N"
  shows "[1..N] = [1..p - 1] @ p # [p + 1..N]"
  using assms by (rule upto_split3)

text \<open>
  C5, as the code has it. In a run over \<open>N\<close> pages whose fetches succeed, the rows of
  every page \<open>p\<close>, whatever their lengths and whatever the length of the header
  sequence, are handed to the \<^verbatim>\<open>DataFrame\<close> constructor unchanged and in order, between
  the rows of the pages before and those of the pages after: the loop neither drops
  nor repairs a row and raises for none. The table returned holds them as they are
  when all rows fit the headers.
\<close>

theorem scrape_trades_keeps_every_row:
  assumes "served w (length (requests w)) url = Inr first_page"
    and "py_int (total_pages_text first_page) = Inr N"
    and "\<And>p. 1 \<le> p \<Longrightarrow> p \<le> N \<Longrightarrow>
           served w (length (requests w) + nat p) (page_url p) = Inr (doc p)"
    and "trades_table (doc 1) = Some t"
    and "1 \<le> p" and "p \<le> N"
  shows "fst (scrape_trades DataFrame w) =
           DataFrame
             (concat (map (\<lambda>p. page_rows_of (doc p)) [1..p - 1]) @ page_rows_of (doc p) @
              concat (map (\<lambda>p. page_rows_of (doc p)) [p + 1..N]))
             (Some (butlast (get_table_headers t))) \<and>
         (builds_frames DataFrame \<and>
          fits (concat (map (\<lambda>p. page_rows_of (doc p)) [1..N])) (butlast (get_table_headers t)) \<longrightarrow>
            fst (scrape_trades DataFrame w) =
              Inr \<lparr>columns = butlast (get_table_headers t),
                   data = concat (map (\<lambda>p. page_rows_of (doc p)) [1..p - 1]) @ page_rows_of (doc p) @
                          concat (map (\<lambda>p. page_rows_of (doc p)) [p + 1..N])\<rparr>)"
proof -
  have N: "1 \<le> N" using assms(5,6) by simp
  have run: "fst (scrape_trades DataFrame w) =
           DataFrame (concat (map (\<lambda>p. page_rows_of (doc p)) [1..N]))
              (Some (butlast (get_table_headers t)))"
    using scrape_trades_run [OF assms(1-3), of t DataFrame] assms(4) N by simp
  have split: "concat (map (\<lambda>p. page_rows_of (doc p)) [1..N]) =
      concat (map (\<lambda>p. page_rows_of (doc p)) [1..p - 1]) @ page_rows_of (doc p) @
      concat (map (\<lambda>p. page_rows_of (doc p)) [p + 1..N])"
    by (simp add: upto_around [OF assms(5,6)])
  show ?thesis
    unfolding run split by (simp add: builds_frames_def)
qed

text \<open>The theorem on page 2 of \<open>world3\<close>, whose row has three values under two headers,
  and on page 2 of the site whose rows fit.\<close>

theorem scrape_trades_keeps_every_row_witness:
  "page_rows_of page2_soup = [[u ''p'', u ''q'', u ''r'']] \<and>
   fst (scrape_trades pl_DataFrame world3) =
     pl_DataFrame ([[u ''x'', u ''y''], []] @ [[u ''p'', u ''q'', u ''r'']] @ []) (Some [u ''A'', u ''B'']) \<and>
   builds_frames pl_DataFrame \<and>
   fits [[u ''x'', u ''y''], [u ''p'', u ''q''], [u ''r'', u ''s'']] [u ''A'', u ''B''] \<and>
   fst (scrape_trades pl_DataFrame fit_world) =
     Inr \<lparr>columns = [u ''A'', u ''B''],
          data = [[u ''x'', u ''y'']] @ [[u ''p'', u ''q''], [u ''r'', u ''s'']] @ []\<rparr>"
proof -
  let ?doc = "\<lambda>p::int. if p = 1 then small_soup else if p = 2 then page2_soup else no_table_soup"
  have pages: "served world3 (length (requests world3) + nat p) (page_url p) = Inr (?doc p)"
    if "1 \<le> p" "p \<le> 3" for p
  proof -
    have "p = 1 \<or> p = 2 \<or> p = 3" using that by auto
    then show ?thesis by (auto simp add: world3_def site_pages)
  qed
  have first: "served world3 (length (requests world3)) url = Inr count_soup"
    by (simp add: world3_def site_pages)
  have table: "trades_table (?doc 1) = Some (the (trades_table small_soup))"
    by (simp add: small_soup_table)
  have one: "fst (scrape_trades pl_DataFrame world3) =
     pl_DataFrame ([[u ''x'', u ''y''], []] @ [[u ''p'', u ''q'', u ''r'']] @ []) (Some [u ''A'', u ''B''])"
    using scrape_trades_keeps_every_row [OF first count_soup_pages pages table, of 2 pl_DataFrame]
    by (simp add: upto_small page_rows_examples small_soup_table)
       (simp add: doc_eval)
  let ?fdoc = "\<lambda>p::int. if p = 1 then fit1_soup else fit2_soup"
  have fpages: "served fit_world (length (requests fit_world) + nat p) (page_url p) = Inr (?fdoc p)"
    if "1 \<le> p" "p \<le> 2" for p
  proof -
    have "p = 1 \<or> p = 2" using that by auto
    then show ?thesis by (auto simp add: fit_world_def more_site_pages)
  qed
  have ffirst: "served fit_world (length (requests fit_world)) url = Inr count2_soup"
    by (simp add: fit_world_def more_site_pages)
  have ftable: "trades_table (?fdoc 1) = Some (the (trades_table fit1_soup))"
    by (simp add: more_tables)
  have fit: "fits [[u ''x'', u ''y''], [u ''p'', u ''q''], [u ''r'', u ''s'']] [u ''A'', u ''B'']"
    by (simp add: fits_def u_def)
  have two: "fst (scrape_trades pl_DataFrame fit_world) =
     Inr \<lparr>columns = [u ''A'', u ''B''],
          data = [[u ''x'', u ''y'']] @ [[u ''p'', u ''q''], [u ''r'', u ''s'']] @ []\<rparr>"
    using scrape_trades_keeps_every_row [OF ffirst count_pages_1_2(2) fpages ftable,
        of 2 pl_DataFrame, THEN conjunct2]
      pl_DataFrame_builds fit
    by (simp add: upto_small more_page_rows more_headers)
  show ?thesis
    using one two pl_DataFrame_builds fit by (simp add: page_rows_examples)
qed

text \<open>
  C5 as the claim states it fails once the constructor has the rows. On \<open>world3\<close> the
  empty row of page 1 is dropped and the row of page 2 loses its third value; on a site
  whose only row has three values under two headers \<^verbatim>\<open>scrape_trades\<close> raises
  \<^verbatim>\<open>ShapeError\<close>.
\<close>

theorem scrape_trades_mismatch_counterexample:
  "page_rows_of small_soup = [[u ''x'', u ''y''], []] \<and>
   page_rows_of page2_soup = [[u ''p'', u ''q'', u ''r'']] \<and>
   fst (scrape_trades pl_DataFrame world3) =
     Inr \<lparr>columns = [u ''A'', u ''B''], data = [[u ''x'', u ''y''], [u ''p'', u ''q'']]\<rparr> \<and>
   page_rows_of wide_soup = [[u ''p'', u ''q'', u ''r'']] \<and>
   fst (scrape_trades pl_DataFrame wide_world) = Inl ShapeError"
  by (simp add: world3_run wide_world_run pl_world3_frame pl_wide_frame page_rows_examples
      more_page_rows)
section \<open>Properties of parse_size\<close>

declare bit_length.simps [simp del]

lemma bit_length_0: "bit_length 0 = 0"
  by (simp add: bit_length.simps)

lemma bit_length_pos: "0 < n \<Longrightarrow> bit_length n = Suc (bit_length (n div 2))"
  by (subst bit_length.simps) simp

lemma bit_length_bounds:
  "0 < n \<Longrightarrow> 2 ^ (bit_length n - 1) \<le> n \<and> n < 2 ^ bit_length n"
proof (induction n rule: bit_length.induct)
  case (1 n)
  show ?case
  proof (cases "n div 2 = 0")
    case True
    then have "n = 1" using "1.prems" by (simp add: div_eq_0_iff) 
    then show ?thesis by (simp add: bit_length_pos bit_length_0)
  next
    case False
    then have pos: "0 < n div 2" by simp
    have n0: "n \<noteq> 0" using "1.prems" by simp
    have IH: "2 ^ (bit_length (n div 2) - 1) \<le> n div 2 \<and> n div 2 < 2 ^ bit_length (n div 2)"
      using "1.IH" [OF n0 pos] .
    have b: "0 < bit_length (n div 2)"
      using pos by (simp add: bit_length_pos)
    then obtain j where j: "bit_length (n div 2) = Suc j"
      by (cases "bit_length (n div 2)") auto
    have "2 * 2 ^ j \<le> 2 * (n div 2)" using IH j by simp
    then have lo: "2 ^ Suc j \<le> n" by simp
    have "n div 2 + 1 \<le> 2 ^ Suc j" using IH j by simp
    then have "2 * (n div 2) + 2 \<le> 2 * 2 ^ Suc j" by simp
    then have hi: "n < 2 ^ Suc (Suc j)" by simp
    show ?thesis
      using lo hi by (simp add: bit_length_pos [OF "1.prems"] j)
  qed
qed

lemma bit_length_le:
  assumes "n < 2 ^ e" shows "bit_length n \<le> e"
proof (cases "n = 0")
  case True then show ?thesis by (simp add: bit_length_0)
next
  case False
  then have "2 ^ (bit_length n - 1) \<le> n" using bit_length_bounds [of n] by simp
  then have "(2::nat) ^ (bit_length n - 1) < 2 ^ e" using assms by (rule le_less_trans)
  then have "bit_length n - 1 < e" by (simp add: power_strict_increasing_iff)
  then show ?thesis by simp
qed

lemma bit_length_gt:
  assumes "2 ^ e \<le> n" shows "e < bit_length n"
proof -
  have "0 < n" using assms by (cases "n = 0") auto
  then have "n < 2 ^ bit_length n" using bit_length_bounds [of n] by simp
  with assms have "(2::nat) ^ e < 2 ^ bit_length n" by (rule le_less_trans)
  then show ?thesis by (simp add: power_strict_increasing_iff)
qed

lemma ilog2_ratio_multiple:
  assumes M: "0 < M" and q: "0 < q"
  shows "ilog2_ratio (M * q) q = int (bit_length M) - 1"
proof -
  obtain e where e: "bit_length M = Suc e"
    using M by (cases "bit_length M") (auto simp add: bit_length_pos)
  obtain c where c: "bit_length q = Suc c"
    using q by (cases "bit_length q") (auto simp add: bit_length_pos)
  have Mb: "2 ^ e \<le> M" "M < 2 ^ Suc e"
    using bit_length_bounds [OF M] e by simp_all
  have qb: "2 ^ c \<le> q" "q < 2 ^ Suc c"
    using bit_length_bounds [OF q] c by simp_all
  have "2 ^ e * 2 ^ c \<le> M * q"
    using Mb(1) qb(1) by (rule mult_le_mono)
  then have "2 ^ (e + c) \<le> M * q" by (simp add: power_add)
  then have lo: "e + c < bit_length (M * q)" by (rule bit_length_gt)
  have "M * q < 2 ^ Suc e * 2 ^ Suc c"
    using Mb(2) qb(2) by (rule mult_strict_mono) simp_all
  then have "M * q < 2 ^ (e + c + 2)" by (simp add: power_add)
  then have hi: "bit_length (M * q) \<le> e + c + 2" by (rule bit_length_le)
  have "bit_length (M * q) = e + c + 1 \<or> bit_length (M * q) = e + c + 2"
    using lo hi by auto
  then show ?thesis
  proof
    assume "bit_length (M * q) = e + c + 1"
    then have d: "int (bit_length (M * q)) - int (bit_length q) = int e"
      using c by simp
    have "q * 2 ^ e \<le> M * q" using Mb(1) by simp
    then show ?thesis
      unfolding ilog2_ratio_def Let_def d using e by simp
  next
    assume "bit_length (M * q) = e + c + 2"
    then have d: "int (bit_length (M * q)) - int (bit_length q) = int (Suc e)"
      using c by simp
    have "M * q < q * 2 ^ Suc e" using Mb(2) q by simp
    then have "\<not> q * 2 ^ Suc e \<le> M * q" by simp
    moreover have "nat (int (Suc e)) = Suc e" by simp
    ultimately show ?thesis
      unfolding ilog2_ratio_def Let_def d using e by (simp del: power_Suc of_nat_Suc)
  qed
qed

lemma round_ratio_zero: "round_ratio s 0 q = Finite s 0 0"
  by (simp add: round_ratio_def)

lemma round_ratio_multiple:
  assumes M: "0 < M" "M < 2 ^ 53" and q: "0 < q"
  shows "round_ratio s (M * q) q =
           Finite s (M * 2 ^ (53 - bit_length M)) (int (bit_length M) - 53)"
proof -
  let ?b = "bit_length M"
  have b53: "?b \<le> 53" using M(2) by (rule bit_length_le)
  have b1: "0 < ?b" using M(1) by (simp add: bit_length_pos)
  have Mb: "M < 2 ^ ?b" using bit_length_bounds [OF M(1)] by simp
  have k: "max (ilog2_ratio (M * q) q - 52) (- 1074) = int ?b - 53"
    using ilog2_ratio_multiple [OF M(1) q] by simp
  have "M * 2 ^ (53 - ?b) < 2 ^ ?b * 2 ^ (53 - ?b)"
    using Mb by simp
  also have "\<dots> = 2 ^ 53"
    using b53 by (simp add: power_add [symmetric] del: power_Suc)
  finally have small: "M * 2 ^ (53 - ?b) < 2 ^ 53" .
  have pos: "0 < M * 2 ^ (53 - ?b)" using M(1) by simp
  show ?thesis
  proof (cases "?b = 53")
    case True
    have "round_ratio s (M * q) q = Finite s M 0"
      unfolding round_ratio_def Let_def k
      using M q True by simp
    then show ?thesis using True by simp
  next
    case False
    then have neg: "\<not> 0 \<le> int ?b - 53" using b53 by simp
    have nat: "nat (- (int ?b - 53)) = 53 - ?b" "nat (53 - int ?b) = 53 - ?b" by simp_all
    have dm: "M * q * 2 ^ (53 - ?b) div q = M * 2 ^ (53 - ?b)"
             "M * q * 2 ^ (53 - ?b) mod q = 0"
      using q by (simp_all add: mult.assoc mult.left_commute)
    show ?thesis
      unfolding round_ratio_def Let_def k
      using neg q small pos M(1) b53
      by (simp add: nat dm del: power_Suc)
  qed
qed


lemma fvalue_multiple:
  assumes "M < 2 ^ 53" "0 < q"
  shows "fvalue (round_ratio False (M * q) q) = Some (of_nat M)"
proof (cases "M = 0")
  case True
  then show ?thesis by (simp add: round_ratio_zero fvalue_def)
next
  case False
  let ?j = "53 - bit_length M"
  have b53: "bit_length M \<le> 53" using assms(1) by (rule bit_length_le)
  have k: "int (bit_length M) - 53 = - int ?j" using b53 by simp
  have "(of_nat (M * 2 ^ ?j) :: rat) * 2 powi (- int ?j) = of_nat M"
    by (simp add: power_int_minus)
  then show ?thesis
    using False assms by (simp add: round_ratio_multiple fvalue_def k del: of_nat_mult of_nat_power)
qed

lemma float_of_nat_exact: "n < 2 ^ 53 \<Longrightarrow> fvalue (float_of_nat n) = Some (of_nat n)"
  using fvalue_multiple [of n 1] by (simp add: float_of_nat_def)

lemma fmul_exact:
  assumes "0 < c" "c < 2 ^ 53" "n * c < 2 ^ 53"
  shows "fmul (round_ratio False n 1) (float_of_nat c) = round_ratio False (n * c) 1"
proof (cases "n = 0")
  case True
  have "float_of_nat c = Finite False (c * 2 ^ (53 - bit_length c)) (int (bit_length c) - 53)"
    using round_ratio_multiple [OF assms(1,2), of 1 False] by (simp add: float_of_nat_def)
  then show ?thesis
    using True by (simp add: round_ratio_zero)
next
  case False
  then have n: "0 < n" by simp
  have "n * 1 \<le> n * c" using assms(1) by (intro mult_le_mono) simp_all
  then have "n \<le> n * c" by simp
  then have n53: "n < 2 ^ 53" using assms(3) by (rule le_less_trans)
  define i where "i = 53 - bit_length n"
  define j where "j = 53 - bit_length c"
  have bn: "bit_length n \<le> 53" "bit_length c \<le> 53"
    using n53 assms(2) by (auto intro: bit_length_le)
  have fn: "round_ratio False n 1 = Finite False (n * 2 ^ i) (- int i)"
    using round_ratio_multiple [OF n n53, of 1 False] bn by (simp add: i_def)
  have fc: "float_of_nat c = Finite False (c * 2 ^ j) (- int j)"
    using round_ratio_multiple [OF assms(1,2), of 1 False] bn by (simp add: float_of_nat_def j_def)
  have nc: "0 < n * c" using n assms(1) by simp
  have prod: "n * 2 ^ i * (c * 2 ^ j) = n * c * 2 ^ (i + j)"
    by (simp add: power_add)
  show ?thesis
  proof (cases "i + j = 0")
    case True
    then have "bit_length n = 53" "bit_length c = 53" using bn by (auto simp add: i_def j_def)
    then have "2 ^ 52 \<le> n" "2 ^ 52 \<le> c"
      using bit_length_bounds [OF n] bit_length_bounds [OF assms(1)] by auto
    then have "2 ^ 52 * 2 ^ 52 \<le> n * c" by (rule mult_le_mono)
    then show ?thesis using assms(3) by simp
  next
    case False
    then have neg: "\<not> 0 \<le> - int i + - int j" by linarith
    have nat: "nat (- (- int i + - int j)) = i + j" by simp
    have "fmul (round_ratio False n 1) (float_of_nat c) =
          round_ratio False (n * c * 2 ^ (i + j)) (2 ^ (i + j))"
      unfolding fn fc fmul.simps using neg by (simp only: nat prod if_False simp_thms)
    also have "\<dots> = Finite False (n * c * 2 ^ (53 - bit_length (n * c))) (int (bit_length (n * c)) - 53)"
      by (rule round_ratio_multiple [OF nc assms(3)]) simp
    also have "\<dots> = round_ratio False (n * c * 1) 1"
      by (rule round_ratio_multiple [OF nc assms(3), symmetric]) simp
    finally show ?thesis by simp
  qed
qed

lemma split_on_no_sep: "sep \<notin> set s \<Longrightarrow> split_on sep s = [s]"
  by (induction s) auto

lemma split_on_append:
  "sep \<notin> set a \<Longrightarrow> split_on sep (a @ sep # b) = a # split_on sep b"
  by (induction a) auto

lemma split_on_once:
  "sep \<notin> set a \<Longrightarrow> sep \<notin> set b \<Longrightarrow> split_on sep (a @ sep # b) = [a, b]"
  by (simp add: split_on_append split_on_no_sep)

lemma digit_chars_is_digit:
  "list_all (\<lambda>d. d < 10) ds \<Longrightarrow> c \<in> set (digit_chars ds) \<Longrightarrow> is_digit c"
  by (auto simp add: digit_chars_def is_digit_def list_all_iff)

lemma digits_value_chars: "digits_value (digit_chars ds) = digits_number ds"
  by (simp add: digits_value_def digit_chars_def digits_number_def foldl_map)

lemma digit_chars_append: "digit_chars (a @ b) = digit_chars a @ digit_chars b"
  by (simp add: digit_chars_def)

lemma decimal_str_chars:
  assumes "list_all (\<lambda>d. d < 10) ip" "list_all (\<lambda>d. d < 10) fp" "c \<in> set (decimal_str ip fp)"
  shows "is_digit c \<or> c = 46"
  using assms digit_chars_is_digit by (auto simp add: decimal_str_def split: if_splits)

lemma to_ascii_same: "(\<And>c. c \<in> set s \<Longrightarrow> c < 127) \<Longrightarrow> to_ascii s = s"
  by (simp add: to_ascii_def to_ascii_char_def map_idI)

lemma strip_ascii_same:
  assumes "s \<noteq> []" "\<not> ascii_space (hd s)" "\<not> ascii_space (last s)"
  shows "strip_ascii s = s"
proof -
  have "dropWhile ascii_space s = s"
    using assms by (simp add: dropWhile_eq_self_iff)
  moreover have "dropWhile ascii_space (rev s) = rev s"
    using assms by (simp add: dropWhile_eq_self_iff hd_rev)
  ultimately show ?thesis by (simp add: strip_ascii_def)
qed

lemma drop_underscores_same:
  "95 \<notin> set s \<Longrightarrow> prev \<noteq> 95 \<Longrightarrow> drop_underscores prev s = Some s"
  by (induction s arbitrary: prev) auto

lemma float_of_decimal_str:
  assumes ip: "ip \<noteq> []" "list_all (\<lambda>d. d < 10) ip" and fp: "list_all (\<lambda>d. d < 10) fp"
  shows "float_of_str (decimal_str ip fp) = Inr (decimal_float ip fp)"
proof -
  let ?s = "decimal_str ip fp"
  let ?r = "if fp = [] then [] else 46 # digit_chars fp"
  have chars: "\<And>c. c \<in> set ?s \<Longrightarrow> is_digit c \<or> c = 46"
    using decimal_str_chars [OF ip(2) fp] .
  have dig_ip: "\<And>c. c \<in> set (digit_chars ip) \<Longrightarrow> is_digit c"
    using digit_chars_is_digit [OF ip(2)] .
  have dig_fp: "\<And>c. c \<in> set (digit_chars fp) \<Longrightarrow> is_digit c"
    using digit_chars_is_digit [OF fp] .
  have ne: "?s \<noteq> []" and dc_ne: "digit_chars ip \<noteq> []"
    using ip(1) by (simp_all add: decimal_str_def digit_chars_def)
  have hd: "is_digit (hd ?s)"
    using dig_ip dc_ne by (simp add: decimal_str_def)
  have "last ?s \<in> set (digit_chars ip) \<union> set (digit_chars fp)"
    using dc_ne by (auto simp add: decimal_str_def digit_chars_def last_map)
  then have last: "is_digit (last ?s)"
    using dig_ip dig_fp by auto
  have "c < 127" if "c \<in> set ?s" for c
    using chars [OF that] by (auto simp add: is_digit_def)
  then have ascii: "to_ascii ?s = ?s"
    by (rule to_ascii_same)
  have strip: "strip_ascii ?s = ?s"
    using ne hd last by (intro strip_ascii_same) (auto simp add: is_digit_def ascii_space_def)
  have "95 \<notin> set ?s" using chars [of 95] by (auto simp add: is_digit_def)
  then have under: "drop_underscores 0 ?s = Some ?s"
    by (rule drop_underscores_same) simp
  have nosign: "hd ?s \<noteq> 45" "hd ?s \<noteq> 43"
    using hd by (auto simp add: is_digit_def)
  have "hd (map lower_ascii ?s) = hd ?s"
    using ne hd by (simp add: hd_map lower_ascii_def is_digit_def)
  then have "is_digit (hd (map lower_ascii ?s))" using hd by simp
  then have words: "map lower_ascii ?s \<noteq> u ''inf''" "map lower_ascii ?s \<noteq> u ''infinity''"
      "map lower_ascii ?s \<noteq> u ''nan''"
    by (auto simp add: u_def is_digit_def)
  have r: "takeWhile is_digit ?r = []" "dropWhile is_digit ?r = ?r"
    by (auto simp add: is_digit_def)
  have tw: "takeWhile is_digit ?s = digit_chars ip"
    unfolding decimal_str_def using dig_ip r(1) by (simp add: takeWhile_append2)
  have dw: "dropWhile is_digit ?s = ?r"
    unfolding decimal_str_def using dig_ip r(2) by (simp add: dropWhile_append2)
  have fpd: "takeWhile is_digit (digit_chars fp) = digit_chars fp"
      "dropWhile is_digit (digit_chars fp) = []"
    using dig_fp by (simp_all add: takeWhile_eq_all_conv)
  have len: "length (digit_chars fp) = length fp"
    by (simp add: digit_chars_def)
  have pd: "parse_decimal ?s = Some (digits_number (ip @ fp), - int (length fp))"
    unfolding parse_decimal_def Let_def tw dw
    using dc_ne
    by (cases "fp = []")
       (simp_all add: fpd parse_exponent_def len digits_value_chars digit_chars_append [symmetric]
          digit_chars_def [of "[]"])
  have body: "(if ?s \<noteq> [] \<and> (hd ?s = 45 \<or> hd ?s = 43) then tl ?s else ?s) = ?s"
    using nosign by simp
  have neg: "(?s \<noteq> [] \<and> hd ?s = 45) = False"
    using nosign by simp
  have fin: "(if 0 \<le> - int (length fp)
              then round_ratio False (digits_number (ip @ fp) * 10 ^ nat (- int (length fp))) 1
              else round_ratio False (digits_number (ip @ fp)) (10 ^ nat (- (- int (length fp))))) =
             decimal_float ip fp"
    by (cases "fp = []") (simp_all add: decimal_float_def)
  show ?thesis
    unfolding float_of_str_def Let_def ascii strip under option.case body neg pd
    using words fin by simp
qed

lemma to_number_bound:
  assumes "valid_bound b"
  shows "to_number (bound_str b) = Inr (bound_float b)"
proof -
  let ?d = "decimal_str (whole b) (fraction b)"
  have v: "whole b \<noteq> []" "list_all (\<lambda>d. d < 10) (whole b)" "list_all (\<lambda>d. d < 10) (fraction b)"
    using assms by (simp_all add: valid_bound_def)
  have chars: "\<And>c. c \<in> set ?d \<Longrightarrow> is_digit c \<or> c = 46"
    using decimal_str_chars [OF v(2,3)] .
  have no: "75 \<notin> set ?d" "77 \<notin> set ?d"
    using chars [of 75] chars [of 77] by (auto simp add: is_digit_def)
  have keep: "filter (\<lambda>c. c \<noteq> 75) ?d = ?d" "filter (\<lambda>c. c \<noteq> 77) ?d = ?d"
    using no by (auto simp add: filter_id_conv)
  have str: "bound_str b = ?d @ suffix_str (unit_suffix b)"
    by (simp add: bound_str_def)
  show ?thesis
    using no keep
    by (cases "unit_suffix b")
       (simp_all add: str to_number_def suffix_str_def float_of_decimal_str [OF v]
          bound_float_def)
qed

lemma bound_str_no_dash:
  assumes "valid_bound b"
  shows "8211 \<notin> set (bound_str b)"
proof -
  have v: "list_all (\<lambda>d. d < 10) (whole b)" "list_all (\<lambda>d. d < 10) (fraction b)"
    using assms by (simp_all add: valid_bound_def)
  have "8211 \<notin> set (decimal_str (whole b) (fraction b))"
    using decimal_str_chars [OF v, of 8211] by (auto simp add: is_digit_def)
  then show ?thesis
    by (cases "unit_suffix b") (simp_all add: bound_str_def suffix_str_def)
qed

lemma bound_float_exact:
  assumes "fraction b = []" "bound_value b < 2 ^ 53"
  shows "fvalue (bound_float b) = Some (bound_value b)"
proof -
  let ?n = "digits_number (whole b)"
  have df: "decimal_float (whole b) [] = round_ratio False ?n 1"
    by (simp add: decimal_float_def)
  have dv: "decimal_value (whole b) [] = of_nat ?n"
    by (simp add: decimal_value_def digits_number_def)
  show ?thesis
  proof (cases "unit_suffix b")
    case Plain
    then have "(of_nat ?n :: rat) < 2 ^ 53"
      using assms by (simp add: bound_value_def dv scale_def)
    then have "?n < 2 ^ 53" by (metis of_nat_less_iff of_nat_numeral of_nat_power)
    then show ?thesis
      using Plain assms(1) fvalue_multiple [of ?n 1]
      by (simp add: bound_float_def df bound_value_def dv scale_def)
  next
    case Kilo
    then have "(of_nat (?n * 1000) :: rat) < 2 ^ 53"
      using assms by (simp add: bound_value_def dv scale_def)
    then have small: "?n * 1000 < 2 ^ 53" by (metis of_nat_less_iff of_nat_numeral of_nat_power)
    have "fmul (round_ratio False ?n 1) (float_of_nat 1000) = round_ratio False (?n * 1000) 1"
      by (rule fmul_exact [OF _ _ small]) simp_all
    then show ?thesis
      using Kilo assms(1) fvalue_multiple [OF small, of 1]
      by (simp add: bound_float_def df bound_value_def dv scale_def)
  next
    case Mega
    then have "(of_nat (?n * 1000000) :: rat) < 2 ^ 53"
      using assms by (simp add: bound_value_def dv scale_def)
    then have small: "?n * 1000000 < 2 ^ 53" by (metis of_nat_less_iff of_nat_numeral of_nat_power)
    have "fmul (round_ratio False ?n 1) (float_of_nat 1000000) = round_ratio False (?n * 1000000) 1"
      by (rule fmul_exact [OF _ _ small]) simp_all
    then show ?thesis
      using Mega assms(1) fvalue_multiple [OF small, of 1]
      by (simp add: bound_float_def df bound_value_def dv scale_def)
  qed
qed

text \<open>
  C1, as the code has it. For every range written as two valid bounds with an en-dash
  between them, \<^verbatim>\<open>parse_size\<close> returns a float and never raises: with \<^verbatim>\<open>minimum_val\<close>
  true the float of the lower bound, with \<^verbatim>\<open>minimum_val\<close> false that of the upper
  bound, where the float of a bound is the binary64 number nearest to the decimal
  written, multiplied as a float by 1,000 for \<^verbatim>\<open>K\<close> and by 1,000,000 for \<^verbatim>\<open>M\<close>. For a
  bound without a fraction whose scaled value is below \<open>2 ^ 53\<close> that float is the
  scaled value itself.
\<close>

theorem parse_size_bounds:
  assumes "valid_bound a" and "valid_bound b"
  shows "parse_size (size_range a b) True = Inr (bound_float a) \<and>
         parse_size (size_range a b) False = Inr (bound_float b) \<and>
         (fraction a = [] \<and> bound_value a < 2 ^ 53 \<longrightarrow> fvalue (bound_float a) = Some (bound_value a)) \<and>
         (fraction b = [] \<and> bound_value b < 2 ^ 53 \<longrightarrow> fvalue (bound_float b) = Some (bound_value b))"
  using assms
  by (simp add: parse_size_def size_range_def split_on_once bound_str_no_dash to_number_bound
      bound_float_exact)

lemmas float_eval =
  parse_size_def to_number_def float_of_str_def to_ascii_def to_ascii_char_def strip_ascii_def
  ascii_space_def is_digit_def lower_ascii_def parse_decimal_def parse_exponent_def
  digits_value_def round_ratio_def ilog2_ratio_def float_of_nat_def bit_length.simps Let_def u_def

text \<open>The theorem on \<^verbatim>\<open>1K\<close>, en-dash, \<^verbatim>\<open>15M\<close>: the floats 1,000 and 15,000,000.\<close>

theorem parse_size_bounds_witness:
  "size_range \<lparr>whole = [1], fraction = [], unit_suffix = Kilo\<rparr>
     \<lparr>whole = [1, 5], fraction = [], unit_suffix = Mega\<rparr> = u ''1K'' @ [8211] @ u ''15M'' \<and>
   parse_size (u ''1K'' @ [8211] @ u ''15M'') True = Inr (Finite False 8796093022208000 (- 43)) \<and>
   fvalue (Finite False 8796093022208000 (- 43)) = Some 1000 \<and>
   parse_size (u ''1K'' @ [8211] @ u ''15M'') False = Inr (Finite False 8053063680000000 (- 29)) \<and>
   fvalue (Finite False 8053063680000000 (- 29)) = Some 15000000"
proof -
  let ?a = "\<lparr>whole = [1], fraction = [], unit_suffix = Kilo\<rparr>"
  let ?b = "\<lparr>whole = [1, 5], fraction = [], unit_suffix = Mega\<rparr>"
  have str: "size_range ?a ?b = u ''1K'' @ [8211] @ u ''15M''"
    by (simp add: size_range_def bound_str_def decimal_str_def digit_chars_def suffix_str_def u_def)
  have valid: "valid_bound ?a" "valid_bound ?b"
    by (simp_all add: valid_bound_def)
  have val: "bound_value ?a = 1000" "bound_value ?b = 15000000"
    by (simp_all add: bound_value_def decimal_value_def digits_number_def scale_def)
  have fl: "bound_float ?a = Finite False 8796093022208000 (- 43)"
      "bound_float ?b = Finite False 8053063680000000 (- 29)"
    by (simp_all add: bound_float_def decimal_float_def digits_number_def float_eval)
  have frac: "fraction ?a = []" "fraction ?b = []"
    by simp_all
  show ?thesis
    using parse_size_bounds [OF valid] unfolding str val fl frac by simp
qed

text \<open>
  C1 as the claim states it fails for bounds with a fraction. The range \<^verbatim>\<open>2.01K\<close>,
  en-dash, \<^verbatim>\<open>4.03K\<close> is valid and its bounds scaled by their suffix are 2,010 and
  4,030, but \<^verbatim>\<open>parse_size\<close> returns the floats \<open>2010 - 2 ^ - 42\<close> (printed
  \<^verbatim>\<open>2009.9999999999998\<close>) and \<open>4030 + 2 ^ - 41\<close> (printed \<^verbatim>\<open>4030.0000000000005\<close>):
  neither 2.01 nor 4.03 is a binary fraction, and the product with 1,000 is rounded
  again.
\<close>

theorem parse_size_fraction_counterexample:
  "valid_bound \<lparr>whole = [2], fraction = [0, 1], unit_suffix = Kilo\<rparr> \<and>
   valid_bound \<lparr>whole = [4], fraction = [0, 3], unit_suffix = Kilo\<rparr> \<and>
   size_range \<lparr>whole = [2], fraction = [0, 1], unit_suffix = Kilo\<rparr>
     \<lparr>whole = [4], fraction = [0, 3], unit_suffix = Kilo\<rparr> = u ''2.01K'' @ [8211] @ u ''4.03K'' \<and>
   bound_value \<lparr>whole = [2], fraction = [0, 1], unit_suffix = Kilo\<rparr> = 2010 \<and>
   bound_value \<lparr>whole = [4], fraction = [0, 3], unit_suffix = Kilo\<rparr> = 4030 \<and>
   parse_size (u ''2.01K'' @ [8211] @ u ''4.03K'') True = Inr (Finite False 8840073487319039 (- 42)) \<and>
   fvalue (Finite False 8840073487319039 (- 42)) = Some (2010 - 1 / 2 ^ 42) \<and>
   parse_size (u ''2.01K'' @ [8211] @ u ''4.03K'') False = Inr (Finite False 8862063719874561 (- 41)) \<and>
   fvalue (Finite False 8862063719874561 (- 41)) = Some (4030 + 1 / 2 ^ 41)"
proof -
  have "valid_bound \<lparr>whole = [2], fraction = [0, 1], unit_suffix = Kilo\<rparr>"
       "valid_bound \<lparr>whole = [4], fraction = [0, 3], unit_suffix = Kilo\<rparr>"
    by (simp_all add: valid_bound_def)
  moreover have "size_range \<lparr>whole = [2], fraction = [0, 1], unit_suffix = Kilo\<rparr>
     \<lparr>whole = [4], fraction = [0, 3], unit_suffix = Kilo\<rparr> = u ''2.01K'' @ [8211] @ u ''4.03K''"
    by (simp add: size_range_def bound_str_def decimal_str_def digit_chars_def suffix_str_def u_def)
  moreover have "bound_value \<lparr>whole = [2], fraction = [0, 1], unit_suffix = Kilo\<rparr> = 2010"
      "bound_value \<lparr>whole = [4], fraction = [0, 3], unit_suffix = Kilo\<rparr> = 4030"
    by (simp_all add: bound_value_def decimal_value_def digits_number_def scale_def)
  moreover have "parse_size (u ''2.01K'' @ [8211] @ u ''4.03K'') True =
      Inr (Finite False 8840073487319039 (- 42))"
    by (simp add: float_eval)
  moreover have "parse_size (u ''2.01K'' @ [8211] @ u ''4.03K'') False =
      Inr (Finite False 8862063719874561 (- 41))"
    by (simp add: float_eval)
  moreover have "fvalue (Finite False 8840073487319039 (- 42)) = Some (2010 - 1 / 2 ^ 42)"
      "fvalue (Finite False 8862063719874561 (- 41)) = Some (4030 + 1 / 2 ^ 41)"
    by (simp_all add: fvalue_def power_int_minus field_simps)
  ultimately show ?thesis by blast
qed

end
